theory Spec2Isabelle
  imports Complex_Main "HOL-Library.AList"
begin

section \<open>Python strings\<close>

text \<open>
  A Python \<open>str\<close> is modelled as a \<open>string\<close>, one \<open>char\<close> per character: the characters
  of the model are the code points U+0000 to U+00FF, and \<open>code\<close> gives the code point. The
  classes and the case mapping below are Python's on all of these characters.
\<close>

definition code :: "char \<Rightarrow> nat" where
  "code c = of_char c"

definition between :: "char \<Rightarrow> char \<Rightarrow> char \<Rightarrow> bool" where
  "between lo hi c = (code lo \<le> code c \<and> code c \<le> code hi)"

text \<open>\<open>[0-9]\<close>, which is also \<open>\d\<close> on these characters; \<open>[A-Z]\<close>, \<open>[a-zA-Z]\<close> and
  \<open>[a-zA-Z0-9]\<close>.\<close>

definition is_digit :: "char \<Rightarrow> bool" where
  "is_digit c = between CHR ''0'' CHR ''9'' c"

definition is_upper :: "char \<Rightarrow> bool" where
  "is_upper c = between CHR ''A'' CHR ''Z'' c"

definition is_alpha :: "char \<Rightarrow> bool" where
  "is_alpha c = (between CHR ''a'' CHR ''z'' c \<or> between CHR ''A'' CHR ''Z'' c)"

definition is_alnum :: "char \<Rightarrow> bool" where
  "is_alnum c = (is_alpha c \<or> is_digit c)"

text \<open>
  \<open>\w\<close>: the underscore and the characters for which \<open>str.isalnum()\<close> holds. Beyond ASCII
  these are the letters 0xC0 to 0xFF without the two signs 0xD7 and 0xF7, and the
  ordinal indicators, superscript digits, micro sign and fractions listed here.
\<close>

definition is_word :: "char \<Rightarrow> bool" where
  "is_word c =
     (is_alnum c \<or> c = CHR ''_''
      \<or> code c \<in> {0xAA, 0xB2, 0xB3, 0xB5, 0xB9, 0xBA, 0xBC, 0xBD, 0xBE}
      \<or> (0xC0 \<le> code c \<and> code c \<noteq> 0xD7 \<and> code c \<noteq> 0xF7))"

text \<open>\<open>\s\<close> and the characters \<open>str.strip()\<close> removes: tab, line feed, vertical tab, form feed,
  carriage return, the four separators 0x1C to 0x1F, the space, the next-line character
  0x85 and the no-break space 0xA0.\<close>

definition is_space :: "char \<Rightarrow> bool" where
  "is_space c =
     ((9 \<le> code c \<and> code c \<le> 13) \<or> (28 \<le> code c \<and> code c \<le> 32)
      \<or> code c = 0x85 \<or> code c = 0xA0)"

text \<open>The upper-case letters: \<open>A\<close> to \<open>Z\<close>, and 0xC0 to 0xDE without the sign 0xD7. The
  lower-case letter of each is 32 code points further.\<close>

definition has_lower :: "char \<Rightarrow> bool" where
  "has_lower c = (is_upper c \<or> (0xC0 \<le> code c \<and> code c \<le> 0xDE \<and> code c \<noteq> 0xD7))"

definition to_lower :: "char \<Rightarrow> char" where
  "to_lower c = (if has_lower c then char_of (code c + 32) else c)"

text \<open>\<open>s.lower()\<close>\<close>

definition lower :: "string \<Rightarrow> string" where
  "lower s = map to_lower s"

text \<open>\<open>s.strip()\<close>\<close>

definition strip :: "string \<Rightarrow> string" where
  "strip s = rev (dropWhile is_space (rev (dropWhile is_space s)))"

text \<open>\<open>s.startswith(p)\<close> and \<open>s.endswith(p)\<close>\<close>

definition startswith :: "string \<Rightarrow> string \<Rightarrow> bool" where
  "startswith s p = (take (length p) s = p)"

definition endswith :: "string \<Rightarrow> string \<Rightarrow> bool" where
  "endswith s p = (length p \<le> length s \<and> drop (length s - length p) s = p)"

text \<open>\<open>sub in s\<close>\<close>

primrec contains :: "string \<Rightarrow> string \<Rightarrow> bool" where
  "contains sub [] = (sub = [])"
| "contains sub (c # cs) = (startswith (c # cs) sub \<or> contains sub cs)"

text \<open>\<open>s.split(sep)\<close> for a separator of one character: the pieces between the
  separators, from left to right; \<open>cur\<close> is the piece being read, last character first.\<close>

fun split_acc :: "char \<Rightarrow> string \<Rightarrow> string \<Rightarrow> string list" where
  "split_acc sep cur [] = [rev cur]"
| "split_acc sep cur (c # cs) =
     (if c = sep then rev cur # split_acc sep [] cs else split_acc sep (c # cur) cs)"

definition split_on :: "char \<Rightarrow> string \<Rightarrow> string list" where
  "split_on sep s = split_acc sep [] s"

text \<open>The slice \<open>s[i:j]\<close> for \<open>0 \<le> i\<close> and \<open>0 \<le> j\<close>.\<close>

definition slice :: "string \<Rightarrow> nat \<Rightarrow> nat \<Rightarrow> string" where
  "slice s i j = take (j - i) (drop i s)"


section \<open>Regular expressions of the \<open>re\<close> module\<close>

text \<open>
  The patterns of the program use character classes, concatenation, alternation, the
  greedy \<open>?\<close>, the greedy \<open>*\<close>, \<open>+\<close> and \<open>{n,}\<close> on a character class, \<open>{n}\<close> and the word
  boundary \<open>\b\<close>.

  A cursor \<open>(m, rest)\<close> is a position inside an attempted match: \<open>m\<close> is the text matched
  so far, last character first, and \<open>rest\<close> the text still ahead. \<open>ends r b k\<close> lists
  the cursors at which a match of \<open>r\<close> that continues from \<open>k\<close> can end, in the order in
  which the backtracking matcher of \<open>re\<close> tries them: its first element is the match that
  \<open>re\<close> reports. \<open>b\<close> is the character in front of the attempted match, which only \<open>\b\<close>
  reads.
\<close>

datatype rx =
    Eps
  | Cls "char \<Rightarrow> bool"
  | Cat rx rx
  | Alt rx rx
  | Opt rx
  | Star "char \<Rightarrow> bool"
  | WordB

type_synonym cursor = "string \<times> string"

definition prev_char :: "char option \<Rightarrow> string \<Rightarrow> char option" where
  "prev_char b m = (case m of [] \<Rightarrow> b | c # _ \<Rightarrow> Some c)"

definition boundary :: "char option \<Rightarrow> string \<Rightarrow> bool" where
  "boundary prev rest =
     ((case prev of None \<Rightarrow> False | Some c \<Rightarrow> is_word c)
      \<noteq> (case rest of [] \<Rightarrow> False | c # _ \<Rightarrow> is_word c))"

text \<open>The greedy star of a class: the longest run first, then one character less, down to
  nothing.\<close>

fun star_ends :: "(char \<Rightarrow> bool) \<Rightarrow> string \<Rightarrow> string \<Rightarrow> cursor list" where
  "star_ends p m [] = [(m, [])]"
| "star_ends p m (c # cs) =
     (if p c then star_ends p (c # m) cs @ [(m, c # cs)] else [(m, c # cs)])"

primrec ends :: "rx \<Rightarrow> char option \<Rightarrow> cursor \<Rightarrow> cursor list" where
  "ends Eps b k = [k]"
| "ends (Cls p) b k =
     (case snd k of [] \<Rightarrow> [] | c # cs \<Rightarrow> if p c then [(c # fst k, cs)] else [])"
| "ends (Cat x y) b k = concat (map (ends y b) (ends x b k))"
| "ends (Alt x y) b k = ends x b k @ ends y b k"
| "ends (Opt x) b k = ends x b k @ [k]"
| "ends (Star p) b k = star_ends p (fst k) (snd k)"
| "ends WordB b k = (if boundary (prev_char b (fst k)) (snd k) then [k] else [])"

text \<open>The literal text \<open>s\<close>, and the same under \<open>re.IGNORECASE\<close>.\<close>

definition lit :: "string \<Rightarrow> rx" where
  "lit s = foldr (\<lambda>c r. Cat (Cls (\<lambda>x. x = c)) r) s Eps"

definition lit_ci :: "string \<Rightarrow> rx" where
  "lit_ci s = foldr (\<lambda>c r. Cat (Cls (\<lambda>x. to_lower x = to_lower c)) r) s Eps"

text \<open>\<open>r1 r2 ... rn\<close>, \<open>r1|r2|...|rn\<close>, \<open>[p]+\<close> and \<open>r{n}\<close>\<close>

definition cats :: "rx list \<Rightarrow> rx" where
  "cats rs = foldr Cat rs Eps"

fun alts :: "rx list \<Rightarrow> rx" where
  "alts [] = Cls (\<lambda>c. False)"
| "alts [r] = r"
| "alts (r # rs) = Alt r (alts rs)"

definition plus :: "(char \<Rightarrow> bool) \<Rightarrow> rx" where
  "plus p = Cat (Cls p) (Star p)"

primrec rep :: "nat \<Rightarrow> rx \<Rightarrow> rx" where
  "rep 0 r = Eps"
| "rep (Suc n) r = Cat r (rep n r)"

text \<open>
  \<open>first_match r b t\<close> is what \<open>re.search\<close> finds in \<open>t\<close>, a text with \<open>b\<close> in front of
  it: the leftmost position at which the pattern matches, with the match the matcher prefers
  there. The result \<open>(b', m, rest)\<close> gives the character in front of the match, the match
  (last character first) and the text behind it.
\<close>

fun first_match :: "rx \<Rightarrow> char option \<Rightarrow> string \<Rightarrow> (char option \<times> string \<times> string) option" where
  "first_match r b [] =
     (case ends r b ([], []) of [] \<Rightarrow> None | (m, rest) # _ \<Rightarrow> Some (b, m, rest))"
| "first_match r b (c # cs) =
     (case ends r b ([], c # cs) of
        [] \<Rightarrow> first_match r (Some c) cs
      | (m, rest) # _ \<Rightarrow> Some (b, m, rest))"

text \<open>\<open>re.search(r, t)\<close>, as the text of \<open>match.group()\<close>; \<open>None\<close> when nothing matches.\<close>

definition re_search :: "rx \<Rightarrow> string \<Rightarrow> string option" where
  "re_search r t = map_option (\<lambda>(b, m, rest). rev m) (first_match r None t)"

text \<open>A match never changes the text: what it has matched and what is ahead stay the same
  text.\<close>

lemma star_ends_text:
  "(m', rest') \<in> set (star_ends p m rest) \<Longrightarrow> rev m' @ rest' = rev m @ rest"
  by (induction p m rest rule: star_ends.induct) (auto split: if_splits)

lemma ends_text:
  "(m', rest') \<in> set (ends r b (m, rest)) \<Longrightarrow> rev m' @ rest' = rev m @ rest"
proof (induction r arbitrary: m rest m' rest')
  case (Cat x y)
  then obtain m1 rest1 where "(m1, rest1) \<in> set (ends x b (m, rest))"
    and "(m', rest') \<in> set (ends y b (m1, rest1))"
    by auto
  with Cat.IH show ?case by metis
qed (auto split: list.splits if_splits dest: star_ends_text)

lemma first_match_text:
  "first_match r b t = Some (b', m, rest) \<Longrightarrow> \<exists>pre. t = pre @ rev m @ rest"
proof (induction r b t rule: first_match.induct)
  case (1 r b)
  then have "(m, rest) \<in> set (ends r b ([], []))"
    by (auto split: list.splits)
  then show ?case by (auto dest: ends_text)
next
  case (2 r b c cs)
  show ?case
  proof (cases "ends r b ([], c # cs)")
    case Nil
    with 2 obtain pre where "cs = pre @ rev m @ rest" by auto
    then have "c # cs = (c # pre) @ rev m @ rest" by simp
    then show ?thesis by blast
  next
    case (Cons k ks)
    with 2 have "(m, rest) \<in> set (ends r b ([], c # cs))"
      by (auto split: prod.splits)
    then have "c # cs = [] @ rev m @ rest" by (auto dest: ends_text)
    then show ?thesis by blast
  qed
qed

lemma first_match_length:
  assumes "first_match r b t = Some (b', m, rest)"
  shows "length m + length rest \<le> length t"
proof -
  from first_match_text [OF assms] obtain pre where "t = pre @ rev m @ rest" by blast
  then have "length t = length pre + length m + length rest" by simp
  then show ?thesis by simp
qed

text \<open>
  \<open>re.findall(r, t)\<close> for a pattern without capturing group: the matches from left to
  right, each search starting where the previous match ended, and one character further
  after an empty match.
\<close>

function findall_from :: "rx \<Rightarrow> char option \<Rightarrow> string \<Rightarrow> string list" where
  "findall_from r b t =
     (case first_match r b t of
        None \<Rightarrow> []
      | Some (b', m, rest) \<Rightarrow>
          rev m #
          (if m = [] then (case rest of [] \<Rightarrow> [] | c # cs \<Rightarrow> findall_from r (Some c) cs)
           else findall_from r (prev_char b' m) rest))"
  by pat_completeness auto
termination
proof (relation "measure (\<lambda>(r, b, t). length t)")
  show "wf (measure (\<lambda>(r, b, t). length t))" by simp
next
  fix r :: rx and b b' :: "char option" and t m rest cs :: string and c :: char
    and x2 :: "char option \<times> string \<times> string" and y :: "string \<times> string"
  assume "first_match r b t = Some x2" and "(b', y) = x2" and "(m, rest) = y"
    and "rest = c # cs"
  then have "first_match r b t = Some (b', m, c # cs)" by simp
  from first_match_length [OF this]
  show "((r, Some c, cs), (r, b, t)) \<in> measure (\<lambda>(r, b, t). length t)" by simp
next
  fix r :: rx and b b' :: "char option" and t m rest :: string
    and x2 :: "char option \<times> string \<times> string" and y :: "string \<times> string"
  assume "first_match r b t = Some x2" and "(b', y) = x2" and "(m, rest) = y"
    and "m \<noteq> []"
  then have fm: "first_match r b t = Some (b', m, rest)" and "0 < length m" by simp_all
  with first_match_length [OF fm] have "length rest < length t" by linarith
  then show "((r, prev_char b' m, rest), (r, b, t)) \<in> measure (\<lambda>(r, b, t). length t)" by simp
qed

definition findall :: "rx \<Rightarrow> string \<Rightarrow> string list" where
  "findall r t = findall_from r None t"


section \<open>Python values\<close>

text \<open>
  The values \<open>json.loads\<close> builds: \<open>None\<close>, \<open>bool\<close>, \<open>int\<close>, \<open>float\<close>, \<open>str\<close>, \<open>list\<close>
  and \<open>dict\<close>. A \<open>dict\<close> is an association list in insertion order, read with \<open>map_of\<close>
  and written with \<open>AList.update\<close>, which keeps the place of a key that is already there and
  appends a new one, as Python does.
\<close>

datatype pyfloat = Finite rat | PosInf | NegInf | NaN

datatype json =
    JNull
  | JBool bool
  | JInt int
  | JFloat pyfloat
  | JStr string
  | JArr "json list"
  | JObj "(string \<times> json) list"

type_synonym pydict = "(string \<times> json) list"

text \<open>The truth value \<open>bool(v)\<close>, which \<open>if v\<close>, \<open>not v\<close> and \<open>and\<close> test.\<close>

fun truthy :: "json \<Rightarrow> bool" where
  "truthy JNull = False"
| "truthy (JBool b) = b"
| "truthy (JInt i) = (i \<noteq> 0)"
| "truthy (JFloat x) = (x \<noteq> Finite 0)"
| "truthy (JStr s) = (s \<noteq> [])"
| "truthy (JArr xs) = (xs \<noteq> [])"
| "truthy (JObj kvs) = (kvs \<noteq> [])"

text \<open>\<open>a and b\<close> is \<open>a\<close> when \<open>a\<close> is false, \<open>b\<close> otherwise; \<open>not a\<close> is a \<open>bool\<close>.\<close>

definition py_and :: "json \<Rightarrow> json \<Rightarrow> json" where
  "py_and a b = (if truthy a then b else a)"

definition py_not :: "json \<Rightarrow> json" where
  "py_not a = JBool (\<not> truthy a)"

text \<open>\<open>d.get(k, default)\<close> and \<open>d.get(k)\<close> on a \<open>dict\<close>\<close>

definition dict_get :: "pydict \<Rightarrow> string \<Rightarrow> json \<Rightarrow> json" where
  "dict_get d k dflt = (case map_of d k of None \<Rightarrow> dflt | Some v \<Rightarrow> v)"

definition dict_get_none :: "pydict \<Rightarrow> string \<Rightarrow> json" where
  "dict_get_none d k = dict_get d k JNull"

text \<open>A \<open>str\<close> or \<open>None\<close> as a value.\<close>

definition opt_str :: "string option \<Rightarrow> json" where
  "opt_str x = (case x of None \<Rightarrow> JNull | Some s \<Rightarrow> JStr s)"

text \<open>The exceptions the program meets; every one of them is an \<open>Exception\<close>.\<close>

datatype error =
    RequestError
  | ParserRejectedMarkup
  | InferenceError
  | JSONDecodeError
  | TypeError
  | AttributeError

text \<open>
  What the program takes from its libraries: \<open>json.loads\<close> (\<open>None\<close> when it raises),
  \<open>list(set(xs))\<close>, whose order Python leaves open, and the rendered text
  \<open>BeautifulSoup(html, 'html.parser').get_text()\<close> of a page, or the exception that
  \<open>BeautifulSoup\<close> raises on the page: the parser rejects some markup.
\<close>

record pylib =
  json_loads :: "string \<Rightarrow> json option"
  list_of_set :: "string list \<Rightarrow> string list"
  get_text :: "string \<Rightarrow> error + string"

text \<open>\<open>list(set(xs))\<close> holds the elements of \<open>xs\<close>, each once.\<close>

definition set_listing :: "pylib \<Rightarrow> bool" where
  "set_listing L = (\<forall>xs. distinct (list_of_set L xs) \<and> set (list_of_set L xs) = set xs)"


section \<open>Contact signals in \<open>extract_business_info\<close>\<close>

subsection \<open>Emails\<close>

text \<open>\<open>[a-zA-Z0-9._%+-]\<close> and \<open>[a-zA-Z0-9.-]\<close>\<close>

definition local_char :: "char \<Rightarrow> bool" where
  "local_char c = (is_alnum c \<or> c \<in> set ''._%+-'')"

definition domain_char :: "char \<Rightarrow> bool" where
  "domain_char c = (is_alnum c \<or> c \<in> set ''.-'')"

text \<open>
  \<open>mailto:([a-zA-Z0-9._%+-]+@[a-zA-Z0-9.-]+\.[a-zA-Z]{2,})\<close> under \<open>re.IGNORECASE\<close>. With its
  one group, \<open>re.findall\<close> returns the text of the group, which is the match without
  its seven leading characters.
\<close>

definition mailto_pattern :: rx where
  "mailto_pattern =
     cats [lit_ci ''mailto:'',
           plus local_char, lit ''@'', plus domain_char, lit ''.'',
           rep 2 (Cls is_alpha), Star is_alpha]"

definition mailto_emails :: "string \<Rightarrow> string list" where
  "mailto_emails html_content = map (drop 7) (findall mailto_pattern html_content)"

text \<open>\<open>\b([a-zA-Z0-9][a-zA-Z0-9._%+-]*@[a-zA-Z0-9][a-zA-Z0-9.-]*\.[a-zA-Z]{2,})\b\<close>: the
  group is the whole match.\<close>

definition email_pattern :: rx where
  "email_pattern =
     cats [WordB,
           Cls is_alnum, Star local_char, lit ''@'',
           Cls is_alnum, Star domain_char, lit ''.'',
           rep 2 (Cls is_alpha), Star is_alpha,
           WordB]"

definition text_emails :: "string \<Rightarrow> string list" where
  "text_emails text = findall email_pattern text"

definition all_emails :: "string \<Rightarrow> string \<Rightarrow> string list" where
  "all_emails html_content text = mailto_emails html_content @ text_emails text"

text \<open>\<open>\.(png|jpg|jpeg|gif|svg|webp|pdf|js|css|woff|ttf|ico)\<close>\<close>

definition file_pattern :: rx where
  "file_pattern =
     Cat (lit ''.'')
       (alts (map lit [''png'', ''jpg'', ''jpeg'', ''gif'', ''svg'', ''webp'', ''pdf'',
                       ''js'', ''css'', ''woff'', ''ttf'', ''ico'']))"

definition valid_tlds :: "string list" where
  "valid_tlds = [''com'', ''net'', ''org'', ''edu'', ''gov'', ''co'', ''us'', ''io'', ''biz'', ''info'']"

text \<open>The loop over \<open>all_emails\<close>; every \<open>continue\<close> is a branch that leaves
  \<open>valid_emails\<close> as it is.\<close>

fun valid_emails_loop :: "string list \<Rightarrow> string list \<Rightarrow> string list" where
  "valid_emails_loop [] valid_emails = valid_emails"
| "valid_emails_loop (e # es) valid_emails =
     (let email = strip (lower e) in
      if re_search file_pattern email \<noteq> None then valid_emails_loop es valid_emails
      else if contains ''@2x'' email \<or> contains ''@3x'' email then valid_emails_loop es valid_emails
      else if \<not> contains ''@'' email then valid_emails_loop es valid_emails
      else
        let parts = split_on CHR ''@'' email in
        if length parts \<noteq> 2 then valid_emails_loop es valid_emails
        else
          let domain = parts ! 1 in
          if length domain < 4 \<or> CHR ''/'' \<in> set domain \<or> CHR 0x5C \<in> set domain
          then valid_emails_loop es valid_emails
          else if \<not> list_ex (\<lambda>tld. endswith domain (''.'' @ tld)) valid_tlds
          then valid_emails_loop es valid_emails
          else valid_emails_loop es (valid_emails @ [email]))"

definition valid_emails :: "string list \<Rightarrow> string list" where
  "valid_emails all = valid_emails_loop all []"

text \<open>\<open>text\<close> is the rendered text \<open>soup.get_text()\<close> of the page.\<close>

definition unique_emails :: "pylib \<Rightarrow> string \<Rightarrow> string \<Rightarrow> string list" where
  "unique_emails L html_content text =
     list_of_set L (valid_emails (all_emails html_content text))"

definition role_prefixes :: "string list" where
  "role_prefixes =
     [''info@'', ''contact@'', ''sales@'', ''support@'', ''hello@'', ''admin@'', ''service@'',
      ''office@'']"

text \<open>\<open>any(prefix in e for prefix in [...])\<close>\<close>

definition any_prefix_in :: "string \<Rightarrow> bool" where
  "any_prefix_in e = list_ex (\<lambda>prefix. contains prefix e) role_prefixes"

definition owner_emails :: "string list \<Rightarrow> string list" where
  "owner_emails unique = filter (\<lambda>e. \<not> any_prefix_in e) unique"

definition business_emails :: "string list \<Rightarrow> string list" where
  "business_emails unique = filter any_prefix_in unique"

subsection \<open>Phones\<close>

text \<open>\<open>[-.\s]\<close>\<close>

definition phone_sep :: "char \<Rightarrow> bool" where
  "phone_sep c = (c = CHR ''-'' \<or> c = CHR ''.'' \<or> is_space c)"

text \<open>
  \<open>\(?\d{3}\)?[-.\s]?\d{3}[-.\s]?\d{4}\<close>, \<open>\d{3}[-.\s]\d{3}[-.\s]\d{4}\<close> and
  \<open>\(\d{3}\)\s?\d{3}-\d{4}\<close>
\<close>

definition phone_patterns :: "rx list" where
  "phone_patterns =
     [cats [Opt (lit ''(''), rep 3 (Cls is_digit), Opt (lit '')''), Opt (Cls phone_sep),
            rep 3 (Cls is_digit), Opt (Cls phone_sep), rep 4 (Cls is_digit)],
      cats [rep 3 (Cls is_digit), Cls phone_sep, rep 3 (Cls is_digit), Cls phone_sep,
            rep 4 (Cls is_digit)],
      cats [lit ''('', rep 3 (Cls is_digit), lit '')'', Opt (Cls is_space),
            rep 3 (Cls is_digit), lit ''-'', rep 4 (Cls is_digit)]]"

definition phones :: "string \<Rightarrow> string list" where
  "phones html_content = concat (map (\<lambda>pattern. findall pattern html_content) phone_patterns)"

text \<open>\<open>re.sub(r'\D', '', phone)\<close>\<close>

definition digits_only :: "string \<Rightarrow> string" where
  "digits_only phone = filter is_digit phone"

text \<open>\<open>f"({d[:3]}) {d[3:6]}-{d[6:]}"\<close>\<close>

definition formatted :: "string \<Rightarrow> string" where
  "formatted d = ''('' @ slice d 0 3 @ '') '' @ slice d 3 6 @ ''-'' @ drop 6 d"

fun cleaned_phones_loop :: "string list \<Rightarrow> string list \<Rightarrow> string list" where
  "cleaned_phones_loop [] cleaned_phones = cleaned_phones"
| "cleaned_phones_loop (phone # ps) cleaned_phones =
     (if length (digits_only phone) = 10 then
        (if formatted (digits_only phone) \<notin> set cleaned_phones
         then cleaned_phones_loop ps (cleaned_phones @ [formatted (digits_only phone)])
         else cleaned_phones_loop ps cleaned_phones)
      else cleaned_phones_loop ps cleaned_phones)"

definition cleaned_phones :: "string \<Rightarrow> string list" where
  "cleaned_phones html_content = cleaned_phones_loop (phones html_content) []"

text \<open>\<open>xs[0] if xs else None\<close>\<close>

definition first_or_none :: "string list \<Rightarrow> string option" where
  "first_or_none xs = (case xs of [] \<Rightarrow> None | x # _ \<Rightarrow> Some x)"

definition main_phone :: "string \<Rightarrow> string option" where
  "main_phone html_content = first_or_none (cleaned_phones html_content)"

subsection \<open>Address\<close>

text \<open>\<open>\d+\s+[A-Z][a-zA-Z\s]+(?:Street|St|Avenue|Ave|Road|Rd|Boulevard|Blvd|Lane|Ln|Drive|Dr|Court|Ct|Way)\.?\<close>\<close>

definition address_pattern :: rx where
  "address_pattern =
     cats [plus is_digit, plus is_space, Cls is_upper, plus (\<lambda>c. is_alpha c \<or> is_space c),
           alts (map lit [''Street'', ''St'', ''Avenue'', ''Ave'', ''Road'', ''Rd'', ''Boulevard'',
                          ''Blvd'', ''Lane'', ''Ln'', ''Drive'', ''Dr'', ''Court'', ''Ct'', ''Way'']),
           Opt (lit ''.'')]"

definition main_address :: "string \<Rightarrow> string option" where
  "main_address text = first_or_none (findall address_pattern text)"


section \<open>\<open>extract_business_info\<close>: the reply of the model and the merge\<close>

text \<open>\<open>re.search(r'\{.*\}', result_text, re.DOTALL)\<close>, as \<open>json_match.group()\<close>\<close>

definition json_pattern :: rx where
  "json_pattern = cats [lit ''{'', Star (\<lambda>c. True), lit ''}'']"

definition json_match :: "string \<Rightarrow> string option" where
  "json_match result_text = re_search json_pattern result_text"

text \<open>\<open>if not business_data.get(k) and cond: business_data[k] = v\<close>\<close>

definition fill :: "pydict \<Rightarrow> string \<Rightarrow> bool \<Rightarrow> string option \<Rightarrow> pydict" where
  "fill business_data k cond v =
     (if \<not> truthy (dict_get_none business_data k) \<and> cond
      then AList.update k (opt_str v) business_data
      else business_data)"

text \<open>The record both fallback branches return.\<close>

definition signal_record ::
  "string \<Rightarrow> string list \<Rightarrow> string list \<Rightarrow> string option \<Rightarrow> string option \<Rightarrow> pydict" where
  "signal_record url bs os mp ma =
     [(''source_url'', JStr url),
      (''business_email'', opt_str (first_or_none bs)),
      (''owner_email'', opt_str (first_or_none os)),
      (''phone'', opt_str mp),
      (''address'', opt_str ma)]"

text \<open>
  The body of the \<open>try\<close>, for a page whose rendered text is \<open>text\<close>. \<open>response\<close> is what
  \<open>ollama.chat(...)['message']['content']\<close> gives: the reply text, or the exception it
  raises. A decoded reply that is not a \<open>dict\<close> raises at
  \<open>business_data['source_url'] = url\<close>.
\<close>

definition extract_try ::
  "pylib \<Rightarrow> error + string \<Rightarrow> string \<Rightarrow> string \<Rightarrow> string \<Rightarrow> error + pydict" where
  "extract_try L response html_content text url =
     (let unique = unique_emails L html_content text;
          os = owner_emails unique;
          bs = business_emails unique;
          mp = main_phone html_content;
          ma = main_address text
      in case response of
           Inl e \<Rightarrow> Inl e
         | Inr result_text \<Rightarrow>
             (case json_match result_text of
                None \<Rightarrow> Inr (signal_record url bs os mp ma)
              | Some m \<Rightarrow>
                  (case json_loads L m of
                     None \<Rightarrow> Inl JSONDecodeError
                   | Some (JObj d) \<Rightarrow>
                       Inr (fill (fill (fill (fill
                              (AList.update ''source_url'' (JStr url) d)
                              ''business_email'' (bs \<noteq> []) (first_or_none bs))
                              ''owner_email'' (os \<noteq> []) (first_or_none os))
                              ''phone'' (truthy (opt_str mp)) mp)
                              ''address'' (truthy (opt_str ma)) ma)
                   | Some _ \<Rightarrow> Inl TypeError)))"

text \<open>\<open>try\<close> with \<open>except Exception\<close>: every exception of the body ends in the fallback
  record.\<close>

definition extract_handled ::
  "pylib \<Rightarrow> error + string \<Rightarrow> string \<Rightarrow> string \<Rightarrow> string \<Rightarrow> pydict" where
  "extract_handled L response html_content text url =
     (case extract_try L response html_content text url of
        Inr business_data \<Rightarrow> business_data
      | Inl e \<Rightarrow>
          (let unique = unique_emails L html_content text
           in signal_record url (business_emails unique) (owner_emails unique)
                (main_phone html_content) (main_address text)))"

text \<open>
  The function. The page is parsed and its signals are taken in front of the \<open>try\<close>: an
  exception of \<open>BeautifulSoup\<close> leaves the function.
\<close>

definition extract_business_info ::
  "pylib \<Rightarrow> error + string \<Rightarrow> string \<Rightarrow> string \<Rightarrow> error + pydict" where
  "extract_business_info L response html_content url =
     (case get_text L html_content of
        Inl e \<Rightarrow> Inl e
      | Inr text \<Rightarrow> Inr (extract_handled L response html_content text url))"


section \<open>\<open>is_small_independent_business\<close>\<close>

text \<open>\<open>is_qualified\<close> for the decoded \<open>analysis\<close>.\<close>

definition is_qualified :: "pydict \<Rightarrow> json" where
  "is_qualified analysis =
     py_and
       (py_and (dict_get analysis ''is_small_independent'' (JBool False))
               (dict_get analysis ''is_service_based'' (JBool False)))
       (py_not (dict_get analysis ''is_chain_or_franchise'' (JBool True)))"

text \<open>
  The body of the \<open>try\<close>; the record \<open>business_data\<close> only enters the prompt. A decoded
  reply that is not a \<open>dict\<close> raises at \<open>analysis.get\<close>.
\<close>

definition classify_try :: "pylib \<Rightarrow> error + string \<Rightarrow> error + json" where
  "classify_try L response =
     (case response of
        Inl e \<Rightarrow> Inl e
      | Inr result_text \<Rightarrow>
          (case json_match result_text of
             None \<Rightarrow> Inr (JBool False)
           | Some m \<Rightarrow>
               (case json_loads L m of
                  None \<Rightarrow> Inl JSONDecodeError
                | Some (JObj analysis) \<Rightarrow> Inr (is_qualified analysis)
                | Some _ \<Rightarrow> Inl AttributeError)))"

definition is_small_independent_business :: "pylib \<Rightarrow> pydict \<Rightarrow> error + string \<Rightarrow> json" where
  "is_small_independent_business L business_data response =
     (case classify_try L response of Inr v \<Rightarrow> v | Inl e \<Rightarrow> JBool False)"


section \<open>\<open>scrape_businesses\<close>\<close>

text \<open>
  What one run meets from outside, by the number \<open>idx\<close> of the loop iteration: the text
  \<open>requests.get\<close> returns for the URL or the exception it (or \<open>raise_for_status\<close>) raises, and
  the two replies of the model. No run makes one of these calls twice in an iteration.
\<close>

record world =
  requests_get :: "nat \<Rightarrow> string \<Rightarrow> error + string"
  extract_chat :: "nat \<Rightarrow> string \<Rightarrow> string \<Rightarrow> error + string"
  classify_chat :: "nat \<Rightarrow> pydict \<Rightarrow> error + string"

definition scrape_business_page :: "world \<Rightarrow> nat \<Rightarrow> string \<Rightarrow> string option" where
  "scrape_business_page W idx url =
     (case requests_get W idx url of Inr text \<Rightarrow> Some text | Inl e \<Rightarrow> None)"

text \<open>The steps a run takes, in order; \<open>Sleep 3\<close> is \<open>time.sleep(3)\<close>.\<close>

datatype event = Fetch string | Extract string | Classify string | Sleep nat

text \<open>
  The \<open>for\<close> loop: the state is the list \<open>qualified_businesses\<close> and the steps taken so
  far. \<open>not html\<close> holds for \<open>None\<close> and for the empty page. The call of
  \<open>extract_business_info\<close> stands in no \<open>try\<close>: its exception ends the run, which then
  returns no list.
\<close>

fun scrape_loop ::
  "pylib \<Rightarrow> world \<Rightarrow> nat \<Rightarrow> string list \<Rightarrow> pydict list \<times> event list
     \<Rightarrow> (error + pydict list) \<times> event list" where
  "scrape_loop L W idx [] (qualified_businesses, steps) = (Inr qualified_businesses, steps)"
| "scrape_loop L W idx (url # urls) (qualified_businesses, steps) =
     (case scrape_business_page W idx url of
        None \<Rightarrow> scrape_loop L W (Suc idx) urls (qualified_businesses, steps @ [Fetch url])
      | Some html \<Rightarrow>
          if html = [] then
            scrape_loop L W (Suc idx) urls (qualified_businesses, steps @ [Fetch url])
          else
            (case extract_business_info L (extract_chat W idx html url) html url of
               Inl e \<Rightarrow> (Inl e, steps @ [Fetch url, Extract url])
             | Inr business_data \<Rightarrow>
                 if \<not> truthy (dict_get_none business_data ''business_name'') then
                   scrape_loop L W (Suc idx) urls
                     (qualified_businesses, steps @ [Fetch url, Extract url])
                 else if truthy (is_small_independent_business L business_data
                                   (classify_chat W idx business_data)) then
                   scrape_loop L W (Suc idx) urls
                     (qualified_businesses @ [business_data],
                      steps @ [Fetch url, Extract url, Classify url, Sleep 3])
                 else
                   scrape_loop L W (Suc idx) urls
                     (qualified_businesses,
                      steps @ [Fetch url, Extract url, Classify url, Sleep 3])))"

definition scrape_run ::
  "pylib \<Rightarrow> world \<Rightarrow> string list \<Rightarrow> (error + pydict list) \<times> event list" where
  "scrape_run L W urls = scrape_loop L W 1 urls ([], [])"


definition scrape_steps :: "pylib \<Rightarrow> world \<Rightarrow> string list \<Rightarrow> event list" where
  "scrape_steps L W urls = snd (scrape_run L W urls)"


section \<open>A decoder for JSON texts\<close>

text \<open>
  \<open>loads\<close> follows \<open>json.loads\<close> on ASCII texts: white space, the literals, numbers,
  strings with their escapes, arrays and objects; a key that comes twice keeps its first
  place and its last value; anything after the value is an error. \<open>None\<close> stands for
  \<open>JSONDecodeError\<close>. A \<open>float\<close> is kept as the exact decimal of its literal, apart from
  overflow to infinity and underflow to zero, which change its truth value; an escape
  \<open>\uXXXX\<close> above \<open>\u00ff\<close> has no character in this model and is not decoded. The first
  argument of the three parsing functions bounds the number of nested calls; two calls in
  a row read at least one character, so twice the length of the text is enough.
\<close>

definition is_ws :: "char \<Rightarrow> bool" where
  "is_ws c = (c = CHR '' '' \<or> c = CHR 0x09 \<or> c = CHR 0x0A \<or> c = CHR 0x0D)"

definition skip_ws :: "string \<Rightarrow> string" where
  "skip_ws s = dropWhile is_ws s"

definition hex_digit :: "char \<Rightarrow> nat option" where
  "hex_digit c =
     (if is_digit c then Some (code c - 48)
      else if between CHR ''a'' CHR ''f'' c then Some (code c - 87)
      else if between CHR ''A'' CHR ''F'' c then Some (code c - 55)
      else None)"

fun hex_value :: "nat \<Rightarrow> string \<Rightarrow> nat option" where
  "hex_value acc [] = Some acc"
| "hex_value acc (c # cs) =
     (case hex_digit c of None \<Rightarrow> None | Some d \<Rightarrow> hex_value (16 * acc + d) cs)"

definition unescape :: "char \<Rightarrow> char option" where
  "unescape e =
     (if e = CHR 0x22 \<or> e = CHR 0x5C \<or> e = CHR ''/'' then Some e
      else if e = CHR ''b'' then Some (CHR 0x08)
      else if e = CHR ''f'' then Some (CHR 0x0C)
      else if e = CHR ''n'' then Some (CHR 0x0A)
      else if e = CHR ''r'' then Some (CHR 0x0D)
      else if e = CHR ''t'' then Some (CHR 0x09)
      else None)"

text \<open>The text of a string after its opening quote, and what follows the closing quote.\<close>

fun scan_string :: "string \<Rightarrow> string \<Rightarrow> (string \<times> string) option" where
  "scan_string acc [] = None"
| "scan_string acc (c # cs) =
     (if c = CHR 0x22 then Some (rev acc, cs)
      else if c = CHR 0x5C then
        (case cs of
           [] \<Rightarrow> None
         | e # es \<Rightarrow>
             if e = CHR ''u'' then
               (if length es < 4 then None
                else case hex_value 0 (take 4 es) of
                       None \<Rightarrow> None
                     | Some n \<Rightarrow> if n < 256 then scan_string (char_of n # acc) (drop 4 es) else None)
             else (case unescape e of None \<Rightarrow> None | Some x \<Rightarrow> scan_string (x # acc) es))
      else if code c < 32 then None
      else scan_string (c # acc) cs)"

fun digits_value :: "int \<Rightarrow> string \<Rightarrow> int" where
  "digits_value acc [] = acc"
| "digits_value acc (c # cs) = digits_value (10 * acc + int (code c - 48)) cs"

text \<open>\<open>float(text)\<close> for the decimal \<open>q\<close> of the text.\<close>

definition to_float :: "rat \<Rightarrow> pyfloat" where
  "to_float q =
     (if 2 ^ 1024 - 2 ^ 970 \<le> \<bar>q\<bar> then (if 0 < q then PosInf else NegInf)
      else if \<bar>q\<bar> \<le> 1 / 2 ^ 1075 then Finite 0
      else Finite q)"

text \<open>\<open>(-?(?:0|[1-9][0-9]*))(\.[0-9]+)?([eE][-+]?[0-9]+)?\<close>: an \<open>int\<close> when there is neither
  fraction nor exponent, a \<open>float\<close> otherwise.\<close>

definition scan_number :: "string \<Rightarrow> (json \<times> string) option" where
  "scan_number s =
     (let neg = (s \<noteq> [] \<and> hd s = CHR ''-'');
          s1 = (if neg then tl s else s);
          ds = (if s1 \<noteq> [] \<and> hd s1 = CHR ''0'' then ''0'' else takeWhile is_digit s1);
          s2 = drop (length ds) s1;
          has_frac = (2 \<le> length s2 \<and> hd s2 = CHR ''.'' \<and> is_digit (s2 ! 1));
          fs = (if has_frac then takeWhile is_digit (tl s2) else []);
          s3 = (if has_frac then drop (Suc (length fs)) s2 else s2);
          has_e = (s3 \<noteq> [] \<and> (hd s3 = CHR ''e'' \<or> hd s3 = CHR ''E''));
          s4 = (if has_e then tl s3 else s3);
          has_sign = (s4 \<noteq> [] \<and> (hd s4 = CHR ''-'' \<or> hd s4 = CHR ''+''));
          eneg = (has_sign \<and> hd s4 = CHR ''-'');
          s5 = (if has_sign then tl s4 else s4);
          es = takeWhile is_digit s5;
          has_exp = (has_e \<and> es \<noteq> []);
          rest = (if has_exp then drop (length es) s5 else s3);
          sgn = (if neg then - 1 else 1)
      in if ds = [] then None
         else if \<not> has_frac \<and> \<not> has_exp then Some (JInt (sgn * digits_value 0 ds), rest)
         else
           let mant = of_int (digits_value 0 (ds @ fs)) / 10 ^ length fs;
               ex = (if has_exp then nat (digits_value 0 es) else 0);
               q = (if eneg then mant / 10 ^ ex else mant * 10 ^ ex)
           in Some (JFloat (to_float (of_int sgn * q)), rest))"

definition literals :: "(string \<times> json) list" where
  "literals =
     [(''null'', JNull), (''true'', JBool True), (''false'', JBool False),
      (''NaN'', JFloat NaN), (''Infinity'', JFloat PosInf), (''-Infinity'', JFloat NegInf)]"

definition scan_literal :: "string \<Rightarrow> (json \<times> string) option" where
  "scan_literal s =
     map_option (\<lambda>(w, v). (v, drop (length w) s)) (find (\<lambda>(w, v). startswith s w) literals)"

fun parse_value :: "nat \<Rightarrow> string \<Rightarrow> (json \<times> string) option"
  and parse_elems :: "nat \<Rightarrow> json list \<Rightarrow> string \<Rightarrow> (json \<times> string) option"
  and parse_members :: "nat \<Rightarrow> pydict \<Rightarrow> string \<Rightarrow> (json \<times> string) option" where
  "parse_value 0 s = None"
| "parse_value (Suc n) [] = None"
| "parse_value (Suc n) (c # cs) =
     (if c = CHR 0x22 then map_option (\<lambda>(x, rest). (JStr x, rest)) (scan_string [] cs)
      else if c = CHR ''{'' then
        (case skip_ws cs of
           [] \<Rightarrow> None
         | d # ds \<Rightarrow>
             if d = CHR ''}'' then Some (JObj [], ds)
             else if d = CHR 0x22 then parse_members n [] ds
             else None)
      else if c = CHR ''['' then
        (case skip_ws cs of
           [] \<Rightarrow> None
         | d # ds \<Rightarrow> if d = CHR '']'' then Some (JArr [], ds) else parse_elems n [] (d # ds))
      else (case scan_literal (c # cs) of
              Some r \<Rightarrow> Some r
            | None \<Rightarrow> scan_number (c # cs)))"
| "parse_elems 0 acc s = None"
| "parse_elems (Suc n) acc s =
     (case parse_value n s of
        None \<Rightarrow> None
      | Some (v, rest) \<Rightarrow>
          (case skip_ws rest of
             [] \<Rightarrow> None
           | d # ds \<Rightarrow>
               if d = CHR '']'' then Some (JArr (acc @ [v]), ds)
               else if d = CHR '','' then parse_elems n (acc @ [v]) (skip_ws ds)
               else None))"
| "parse_members 0 acc s = None"
| "parse_members (Suc n) acc s =
     (case scan_string [] s of
        None \<Rightarrow> None
      | Some (key, rest) \<Rightarrow>
          (case skip_ws rest of
             [] \<Rightarrow> None
           | d # ds \<Rightarrow>
               if d \<noteq> CHR '':'' then None
               else
                 (case parse_value n (skip_ws ds) of
                    None \<Rightarrow> None
                  | Some (v, rest') \<Rightarrow>
                      (case skip_ws rest' of
                         [] \<Rightarrow> None
                       | d' # ds' \<Rightarrow>
                           if d' = CHR ''}'' then Some (JObj (AList.update key v acc), ds')
                           else if d' = CHR '','' then
                             (case skip_ws ds' of
                                [] \<Rightarrow> None
                              | q # qs \<Rightarrow>
                                  if q = CHR 0x22
                                  then parse_members n (AList.update key v acc) qs
                                  else None)
                           else None))))"

definition loads :: "string \<Rightarrow> json option" where
  "loads s =
     (case parse_value (2 * length s + 2) (skip_ws s) of
        None \<Rightarrow> None
      | Some (v, rest) \<Rightarrow> if skip_ws rest = [] then Some v else None)"

text \<open>
  The libraries on a page without markup, whose rendered text is the page itself, with
  \<open>list(set(xs))\<close> in the order of first occurrence. The one markup these pages can hold
  is the marked section \<open><![foo]>\<close>: its keyword is none that \<open>html.parser\<close> knows, and
  \<open>BeautifulSoup\<close> raises \<open>ParserRejectedMarkup\<close> on a page with it.
\<close>

definition plain_text :: "string \<Rightarrow> error + string" where
  "plain_text html = (if contains ''<![foo]>'' html then Inl ParserRejectedMarkup else Inr html)"

definition plain_lib :: pylib where
  "plain_lib = \<lparr> json_loads = loads, list_of_set = remdups, get_text = plain_text \<rparr>"

section \<open>Notions the properties are stated with\<close>





text \<open>The part of an email in front of its first \<open>@\<close>, and the part behind it.\<close>

definition local_part :: "string \<Rightarrow> string" where
  "local_part e = takeWhile (\<lambda>c. c \<noteq> CHR ''@'') e"

definition domain_of :: "string \<Rightarrow> string" where
  "domain_of e = drop 1 (dropWhile (\<lambda>c. c \<noteq> CHR ''@'') e)"

text \<open>
  What is said of a validated email: it is lower-case, has exactly one \<open>@\<close>, and its
  domain has at least four characters, no path separator and a suffix of the allow-list.
\<close>

definition well_formed_email :: "string \<Rightarrow> bool" where
  "well_formed_email e =
     (lower e = e
      \<and> count_list e CHR ''@'' = 1
      \<and> 4 \<le> length (domain_of e)
      \<and> CHR ''/'' \<notin> set (domain_of e) \<and> CHR 0x5C \<notin> set (domain_of e)
      \<and> list_ex (\<lambda>tld. endswith (domain_of e) (''.'' @ tld)) valid_tlds)"

text \<open>The generic role names, and a local part that starts, or ends, with one of them.\<close>

definition generic_names :: "string list" where
  "generic_names =
     [''info'', ''contact'', ''sales'', ''support'', ''hello'', ''admin'', ''service'', ''office'']"

definition starts_generic :: "string \<Rightarrow> bool" where
  "starts_generic e = list_ex (\<lambda>g. startswith (local_part e) g) generic_names"

definition ends_generic :: "string \<Rightarrow> bool" where
  "ends_generic e = list_ex (\<lambda>g. endswith (local_part e) g) generic_names"

definition corpus :: string where
  "corpus = ''foo@bar.png a@b.c Contact@Example.COM''"

text \<open>
  The text from the first \<open>{\<close> of a reply through the last \<open>}\<close> behind it; \<open>None\<close> when
  the reply has no \<open>{\<close>, or no \<open>}\<close> behind the first one.
\<close>

definition brace_span :: "string \<Rightarrow> string option" where
  "brace_span text =
     (case dropWhile (\<lambda>c. c \<noteq> CHR ''{'') text of
        [] \<Rightarrow> None
      | c # s \<Rightarrow>
          if CHR ''}'' \<in> set s then Some (c # rev (dropWhile (\<lambda>c. c \<noteq> CHR ''}'') (rev s)))
          else None)"

text \<open>
  The first balanced top-level object of a reply, in the words of the specification: from
  the first \<open>{\<close>, the text up to the \<open>}\<close> that closes it, counting the braces in between.
  \<open>depth\<close> is the number of braces that are open, \<open>acc\<close> the text read so far, last
  character first.
\<close>

fun balanced_from :: "nat \<Rightarrow> string \<Rightarrow> string \<Rightarrow> string option" where
  "balanced_from depth acc [] = None"
| "balanced_from depth acc (c # cs) =
     (if c = CHR ''{'' then balanced_from (Suc depth) (c # acc) cs
      else if c = CHR ''}'' then
        (if depth \<le> 1 then Some (rev (c # acc)) else balanced_from (depth - 1) (c # acc) cs)
      else balanced_from depth (c # acc) cs)"

definition first_balanced :: "string \<Rightarrow> string option" where
  "first_balanced text =
     (case dropWhile (\<lambda>c. c \<noteq> CHR ''{'') text of
        [] \<Rightarrow> None
      | c # cs \<Rightarrow> balanced_from 1 [c] cs)"

text \<open>
  What the two functions that read a reply decode from it: the \<open>dict\<close> that
  \<open>json.loads\<close> makes of the match of \<open>\{.*\}\<close>; \<open>None\<close> when there is no match, when
  \<open>json.loads\<close> raises, and when its value is not a \<open>dict\<close>.
\<close>

definition decode_reply :: "pylib \<Rightarrow> string \<Rightarrow> pydict option" where
  "decode_reply L result_text =
     (case json_match result_text of
        None \<Rightarrow> None
      | Some m \<Rightarrow> (case json_loads L m of Some (JObj d) \<Rightarrow> Some d | _ \<Rightarrow> None))"

text \<open>The pattern \<open>a.*z\<close> under \<open>re.DOTALL\<close>, and a text up to its last \<open>z\<close>.\<close>

definition span_pattern :: "char \<Rightarrow> char \<Rightarrow> rx" where
  "span_pattern a z = cats [lit [a], Star (\<lambda>c. True), lit [z]]"

definition upto_last :: "char \<Rightarrow> string \<Rightarrow> string" where
  "upto_last z s = rev (dropWhile (\<lambda>c. c \<noteq> z) (rev s))"

text \<open>The fallback record of a page with the rendered text \<open>text\<close>, and the record of the
  branch that has decoded \<open>d\<close>.\<close>

definition signals_only :: "pylib \<Rightarrow> string \<Rightarrow> string \<Rightarrow> string \<Rightarrow> pydict" where
  "signals_only L html_content text url =
     signal_record url
       (business_emails (unique_emails L html_content text))
       (owner_emails (unique_emails L html_content text))
       (main_phone html_content) (main_address text)"

definition parsed_record :: "pylib \<Rightarrow> string \<Rightarrow> string \<Rightarrow> string \<Rightarrow> pydict \<Rightarrow> pydict" where
  "parsed_record L html_content text url d =
     fill (fill (fill (fill
       (AList.update ''source_url'' (JStr url) d)
       ''business_email'' (business_emails (unique_emails L html_content text) \<noteq> [])
          (first_or_none (business_emails (unique_emails L html_content text))))
       ''owner_email'' (owner_emails (unique_emails L html_content text) \<noteq> [])
          (first_or_none (owner_emails (unique_emails L html_content text))))
       ''phone'' (truthy (opt_str (main_phone html_content))) (main_phone html_content))
       ''address'' (truthy (opt_str (main_address text))) (main_address text)"

text \<open>The four contact fields of a record, each with the signal that can fill it.\<close>

definition contact_signals :: "pylib \<Rightarrow> string \<Rightarrow> string \<Rightarrow> (string \<times> string option) list" where
  "contact_signals L html_content text =
     [(''business_email'', first_or_none (business_emails (unique_emails L html_content text))),
      (''owner_email'', first_or_none (owner_emails (unique_emails L html_content text))),
      (''phone'', main_phone html_content),
      (''address'', main_address text)]"

text \<open>The keys the merge can write.\<close>

definition merge_keys :: "string list" where
  "merge_keys = [''source_url'', ''business_email'', ''owner_email'', ''phone'', ''address'']"

text \<open>Replies and a page for the examples.\<close>

definition verdict_reply :: string where
  \<open>verdict_reply =
     ''Here is the analysis: {"is_small_independent": true, "is_service_based": true, "is_chain_or_franchise": false}''\<close>

definition partial_reply :: string where
  \<open>partial_reply = ''{"is_small_independent": true, "is_service_based": true}''\<close>

definition no_json_reply :: string where
  "no_json_reply = ''I cannot tell.''"

definition two_objects_reply :: string where
  \<open>two_objects_reply = ''{"a": 1} and {"b": 2}''\<close>

definition empty_phone_reply :: string where
  \<open>empty_phone_reply = ''{"business_name": "Joe Plumbing", "phone": ""}''\<close>

definition named_reply :: string where
  \<open>named_reply = ''Sure. {"business_name": "Joe Plumbing", "phone": "555-0000"}''\<close>

definition joe_page :: string where
  "joe_page = ''Call 555-123-4567 or write to info@joe.com''"

definition joe_url :: string where
  "joe_url = ''http://joe.com''"


text \<open>
  One URL of a run, given with the number of its iteration: what the adapter returns for
  its page, whether a record has a name (\<open>business_data.get('business_name')\<close> is true), and
  whether the classifier accepts a record.
\<close>

definition page_result :: "pylib \<Rightarrow> world \<Rightarrow> nat \<Rightarrow> string \<Rightarrow> string \<Rightarrow> error + pydict" where
  "page_result L W idx url html = extract_business_info L (extract_chat W idx html url) html url"

definition has_name :: "pydict \<Rightarrow> bool" where
  "has_name r = truthy (dict_get_none r ''business_name'')"

definition accepted :: "pylib \<Rightarrow> world \<Rightarrow> nat \<Rightarrow> pydict \<Rightarrow> bool" where
  "accepted L W idx r = truthy (is_small_independent_business L r (classify_chat W idx r))"



text \<open>The exception, if any, with which the adapter ends the run at the URL: the page was
  fetched, is not empty, and the parser rejects it.\<close>

definition page_error :: "pylib \<Rightarrow> world \<Rightarrow> nat \<times> string \<Rightarrow> error option" where
  "page_error L W p =
     (case requests_get W (fst p) (snd p) of
        Inl e \<Rightarrow> None
      | Inr html \<Rightarrow>
          if html = [] then None
          else (case page_result L W (fst p) (snd p) html of Inl e \<Rightarrow> Some e | Inr r \<Rightarrow> None))"

text \<open>The first such exception among the URLs, and the URLs the run gets to: all of them,
  or those up to the first URL with an exception.\<close>

fun first_error :: "pylib \<Rightarrow> world \<Rightarrow> (nat \<times> string) list \<Rightarrow> error option" where
  "first_error L W [] = None"
| "first_error L W (p # ps) =
     (case page_error L W p of Some e \<Rightarrow> Some e | None \<Rightarrow> first_error L W ps)"

fun reached :: "pylib \<Rightarrow> world \<Rightarrow> (nat \<times> string) list \<Rightarrow> (nat \<times> string) list" where
  "reached L W [] = []"
| "reached L W (p # ps) =
     (case page_error L W p of Some e \<Rightarrow> [p] | None \<Rightarrow> p # reached L W ps)"

text \<open>The run calls the classifier for the URL: its fetch gave a page that is not empty, and
  the adapter returned a record that has a name.\<close>

definition reaches_classifier :: "pylib \<Rightarrow> world \<Rightarrow> nat \<times> string \<Rightarrow> bool" where
  "reaches_classifier L W p =
     (case requests_get W (fst p) (snd p) of
        Inl e \<Rightarrow> False
      | Inr html \<Rightarrow>
          html \<noteq> []
          \<and> (case page_result L W (fst p) (snd p) html of Inl e \<Rightarrow> False | Inr r \<Rightarrow> has_name r))"

text \<open>The run calls the classifier for the URL, and the classifier accepts its record.\<close>

definition classifier_accepted :: "pylib \<Rightarrow> world \<Rightarrow> nat \<times> string \<Rightarrow> bool" where
  "classifier_accepted L W p =
     (reaches_classifier L W p
      \<and> (case requests_get W (fst p) (snd p) of
            Inl e \<Rightarrow> False
          | Inr html \<Rightarrow>
              (case page_result L W (fst p) (snd p) html of
                 Inl e \<Rightarrow> False
               | Inr r \<Rightarrow> accepted L W (fst p) r)))"

text \<open>The record of the URL: what the adapter returns for its page, when the fetch
  succeeded and the adapter returned.\<close>

definition url_record :: "pylib \<Rightarrow> world \<Rightarrow> nat \<times> string \<Rightarrow> pydict option" where
  "url_record L W p =
     (case requests_get W (fst p) (snd p) of
        Inl e \<Rightarrow> None
      | Inr html \<Rightarrow>
          (case page_result L W (fst p) (snd p) html of Inl e \<Rightarrow> None | Inr r \<Rightarrow> Some r))"

text \<open>The record a URL adds to the output, if any.\<close>

definition contributed :: "pylib \<Rightarrow> world \<Rightarrow> nat \<times> string \<Rightarrow> pydict option" where
  "contributed L W p = (if classifier_accepted L W p then url_record L W p else None)"

text \<open>The steps of a URL: the delay comes after the classifier and nowhere else.\<close>

definition url_steps :: "pylib \<Rightarrow> world \<Rightarrow> nat \<times> string \<Rightarrow> event list" where
  "url_steps L W p =
     (if reaches_classifier L W p
      then [Fetch (snd p), Extract (snd p), Classify (snd p), Sleep 3]
      else case requests_get W (fst p) (snd p) of
             Inl e \<Rightarrow> [Fetch (snd p)]
           | Inr html \<Rightarrow> if html = [] then [Fetch (snd p)] else [Fetch (snd p), Extract (snd p)])"

text \<open>Runs for the examples: three URLs of which the first cannot be fetched and the second
  gives a record without name; a run whose fetches all fail; a run whose second page the
  parser rejects.\<close>

definition no_name_reply :: string where
  \<open>no_name_reply = ''{"description": "A shop"}''\<close>

definition three_urls :: "string list" where
  "three_urls = [''http://a.com'', ''http://b.com'', joe_url]"

definition three_world :: world where
  "three_world =
     \<lparr> requests_get = (\<lambda>idx url. if idx = 1 then Inl RequestError else Inr joe_page),
       extract_chat = (\<lambda>idx html url. if idx = 2 then Inr no_name_reply else Inr named_reply),
       classify_chat = (\<lambda>idx r. Inr verdict_reply) \<rparr>"

definition failing_world :: world where
  "failing_world =
     \<lparr> requests_get = (\<lambda>idx url. Inl RequestError),
       extract_chat = (\<lambda>idx html url. Inr named_reply),
       classify_chat = (\<lambda>idx r. Inr verdict_reply) \<rparr>"

section \<open>Phones\<close>






text \<open>The separator class \<open>\s\<close> holds the no-break space: \<open>Tel 555\u00a0123\u00a04567\<close> is
  a phone.\<close>

lemma phones_no_break_space:
  "cleaned_phones (''Tel 555'' @ [CHR 0xA0] @ ''123'' @ [CHR 0xA0] @ ''4567'') = [''(555) 123-4567'']"
  by code_simp



section \<open>Emails\<close>

lemma to_lower_idem: "to_lower (to_lower c) = to_lower c"
proof (cases "has_lower c")
  case True
  then have "code c + 32 < 256" and "97 \<le> code c + 32"
    and "code c + 32 \<le> 122 \<or> 224 \<le> code c + 32"
    by (auto simp: has_lower_def is_upper_def between_def code_def)
  then have "\<not> has_lower (char_of (code c + 32))"
    by (auto simp: has_lower_def is_upper_def between_def code_def)
  then show ?thesis by (simp add: to_lower_def)
next
  case False
  then show ?thesis by (simp add: to_lower_def)
qed

lemma set_strip: "set (strip s) \<subseteq> set s"
proof -
  have "set (strip s) \<subseteq> set (dropWhile is_space s)"
    unfolding strip_def set_rev by (metis set_dropWhileD set_rev subsetI)
  also have "\<dots> \<subseteq> set s" by (auto dest: set_dropWhileD)
  finally show ?thesis .
qed

lemma lower_strip_lower: "lower (strip (lower e)) = strip (lower e)"
proof -
  have "\<forall>c \<in> set (strip (lower e)). to_lower c = c"
    using set_strip [of "lower e"] by (auto simp: lower_def to_lower_idem)
  then show ?thesis unfolding lower_def by (simp add: map_idI)
qed

lemma split_acc_none:
  "sep \<notin> set s \<Longrightarrow> split_acc sep cur s = [rev cur @ s]"
  by (induction s arbitrary: cur) auto

lemma length_split_acc: "length (split_acc sep cur s) = Suc (count_list s sep)"
  by (induction s arbitrary: cur) auto

lemma split_acc_one:
  "count_list s sep = 1 \<Longrightarrow>
   split_acc sep cur s
     = [rev cur @ takeWhile (\<lambda>c. c \<noteq> sep) s, drop 1 (dropWhile (\<lambda>c. c \<noteq> sep) s)]"
proof (induction s arbitrary: cur)
  case Nil
  then show ?case by simp
next
  case (Cons c cs)
  show ?case
  proof (cases "c = sep")
    case True
    with Cons.prems have "count_list cs sep = 0" by simp
    then have "sep \<notin> set cs" by (simp add: count_list_0_iff)
    with True show ?thesis by (simp add: split_acc_none)
  next
    case False
    with Cons show ?thesis by simp
  qed
qed

lemma split_on_two:
  assumes "length (split_on CHR ''@'' e) = 2"
  shows "count_list e CHR ''@'' = 1" and "split_on CHR ''@'' e ! 1 = domain_of e"
proof -
  from assms show c: "count_list e CHR ''@'' = 1"
    by (simp add: split_on_def length_split_acc)
  show "split_on CHR ''@'' e ! 1 = domain_of e"
    by (simp add: split_on_def split_acc_one [OF c] domain_of_def)
qed

lemma valid_emails_loop_wf:
  "\<forall>x \<in> set acc. well_formed_email x \<Longrightarrow>
   \<forall>x \<in> set (valid_emails_loop es acc). well_formed_email x"
proof (induction es arbitrary: acc)
  case Nil
  then show ?case by simp
next
  case (Cons e es)
  let ?email = "strip (lower e)"
  have step: "\<forall>x \<in> set (acc @ [?email]). well_formed_email x"
    if "length (split_on CHR ''@'' ?email) = 2"
      and "\<not> (length (split_on CHR ''@'' ?email ! 1) < 4 \<or> CHR ''/'' \<in> set (split_on CHR ''@'' ?email ! 1)
              \<or> CHR 0x5C \<in> set (split_on CHR ''@'' ?email ! 1))"
      and "list_ex (\<lambda>tld. endswith (split_on CHR ''@'' ?email ! 1) (''.'' @ tld)) valid_tlds"
  proof -
    from split_on_two [OF that(1)] that(2,3) have "well_formed_email ?email"
      unfolding well_formed_email_def by (simp add: lower_strip_lower)
    with Cons.prems show ?thesis by simp
  qed
  show ?case
    unfolding valid_emails_loop.simps Let_def
    using Cons.IH [OF Cons.prems] Cons.IH [OF step]
    by (simp only: split: if_splits) blast
qed

lemma valid_emails_wf: "\<forall>x \<in> set (valid_emails all). well_formed_email x"
  unfolding valid_emails_def by (rule valid_emails_loop_wf) simp

lemma corpus_example: "valid_emails (all_emails corpus corpus) = [''contact@example.com'']"
  unfolding corpus_def by code_simp

text \<open>A letter beyond ASCII is a word character, and \<open>\b\<close> finds no boundary between it and
  an ASCII letter. With the letter 0xE9 between \<open>b\<close> and \<open>b@x.com\<close> the text holds no
  email; with this letter in front of \<open>x@y.com@z.com\<close> the email is \<open>y.com@z.com\<close>, which
  is validated.\<close>

lemma emails_beyond_ascii:
  "text_emails (''b'' @ [CHR 0xE9] @ ''b@x.com'') = []
   \<and> text_emails ([CHR 0xE9] @ ''x@y.com@z.com'') = [''y.com@z.com'']
   \<and> valid_emails [''y.com@z.com''] = [''y.com@z.com'']"
  by code_simp

text \<open>
  C4. Every email of the validated set is lower-case, holds exactly one \<open>@\<close>, has a
  domain of at least four characters without path separator and with a suffix of the
  allow-list; the set has no email twice; and the corpus with \<open>foo@bar.png\<close>, \<open>a@b.c\<close> and
  \<open>Contact@Example.COM\<close> gives \<open>contact@example.com\<close> alone. \<open>html_content\<close> is the page and
  \<open>text\<close> its rendered text; the corpus has no markup and is its own rendered text.
\<close>

theorem validated_emails_well_formed:
  assumes "set_listing L"
  shows "(\<forall>e \<in> set (unique_emails L html_content text). well_formed_email e)
         \<and> distinct (unique_emails L html_content text)
         \<and> unique_emails L corpus corpus = [''contact@example.com'']"
proof -
  let ?v = "valid_emails (all_emails html_content text)"
  from assms have s: "set (unique_emails L html_content text) = set ?v"
    and d: "distinct (unique_emails L html_content text)"
    by (simp_all add: set_listing_def unique_emails_def)
  from s valid_emails_wf
  have w: "\<forall>e \<in> set (unique_emails L html_content text). well_formed_email e"
    by simp
  have x: "unique_emails L corpus corpus = [''contact@example.com'']"
  proof -
    from assms have "set (unique_emails L corpus corpus) = {''contact@example.com''}"
      and "distinct (unique_emails L corpus corpus)"
      by (simp_all add: set_listing_def unique_emails_def corpus_example)
    then show ?thesis
      by (cases "unique_emails L corpus corpus") (auto simp: insert_eq_iff dest: subset_singletonD)
  qed
  from w d x show ?thesis by blast
qed

lemma set_listing_plain: "set_listing plain_lib"
  by (simp add: set_listing_def plain_lib_def)

theorem validated_emails_well_formed_witness:
  "set_listing plain_lib
   \<and> unique_emails plain_lib corpus corpus = [''contact@example.com'']
   \<and> well_formed_email ''contact@example.com''"
proof -
  from validated_emails_well_formed [OF set_listing_plain, of corpus corpus]
  have w: "\<forall>e \<in> set (unique_emails plain_lib corpus corpus). well_formed_email e"
    and u: "unique_emails plain_lib corpus corpus = [''contact@example.com'']"
    by blast+
  from w u have "well_formed_email ''contact@example.com''" by simp
  with u set_listing_plain show ?thesis by blast
qed
section \<open>Owner and business emails\<close>

lemma startswith_iff: "startswith s p \<longleftrightarrow> (\<exists>post. s = p @ post)"
proof
  assume "startswith s p"
  then have "s = p @ drop (length p) s"
    unfolding startswith_def by (metis append_take_drop_id)
  then show "\<exists>post. s = p @ post" ..
next
  assume "\<exists>post. s = p @ post"
  then show "startswith s p" by (auto simp: startswith_def)
qed

lemma endswith_iff: "endswith s p \<longleftrightarrow> (\<exists>pre. s = pre @ p)"
proof
  assume "endswith s p"
  then have "s = take (length s - length p) s @ p"
    unfolding endswith_def by (metis append_take_drop_id)
  then show "\<exists>pre. s = pre @ p" ..
next
  assume "\<exists>pre. s = pre @ p"
  then show "endswith s p" by (auto simp: endswith_def)
qed

lemma contains_iff: "contains sub s \<longleftrightarrow> (\<exists>pre post. s = pre @ sub @ post)"
proof (induction s)
  case Nil
  then show ?case by auto
next
  case (Cons c cs)
  show ?case
  proof
    assume "contains sub (c # cs)"
    then consider "startswith (c # cs) sub" | "contains sub cs" by auto
    then show "\<exists>pre post. c # cs = pre @ sub @ post"
    proof cases
      case 1
      then obtain post where "c # cs = [] @ sub @ post"
        by (auto simp: startswith_iff)
      then show ?thesis by blast
    next
      case 2
      with Cons.IH obtain pre post where "cs = pre @ sub @ post" by blast
      then have "c # cs = (c # pre) @ sub @ post" by simp
      then show ?thesis by blast
    qed
  next
    assume "\<exists>pre post. c # cs = pre @ sub @ post"
    then obtain pre post where e: "c # cs = pre @ sub @ post" by blast
    show "contains sub (c # cs)"
    proof (cases pre)
      case Nil
      with e have "startswith (c # cs) sub" by (auto simp: startswith_iff)
      then show ?thesis by simp
    next
      case (Cons p ps)
      with e have "cs = ps @ sub @ post" by simp
      with Cons.IH have "contains sub cs" by blast
      then show ?thesis by simp
    qed
  qed
qed

lemma around_separator:
  assumes one: "count_list e a = 1" and g: "a \<notin> set g"
  shows "(\<exists>pre post. e = pre @ (g @ [a]) @ post) \<longleftrightarrow> (\<exists>pre. takeWhile (\<lambda>c. c \<noteq> a) e = pre @ g)"
proof
  assume "\<exists>pre post. e = pre @ (g @ [a]) @ post"
  then obtain pre post where e: "e = (pre @ g) @ a # post" by auto
  with one have "count_list pre a = 0" by simp
  then have "a \<notin> set pre" by (simp add: count_list_0_iff)
  with g have "\<forall>c \<in> set (pre @ g). c \<noteq> a" by auto
  then have "takeWhile (\<lambda>c. c \<noteq> a) (pre @ g) = pre @ g"
    by (simp only: takeWhile_eq_all_conv)
  moreover have "takeWhile (\<lambda>c. c \<noteq> a) ((pre @ g) @ a # post) = takeWhile (\<lambda>c. c \<noteq> a) (pre @ g)"
    by (rule takeWhile_tail) simp
  ultimately have "takeWhile (\<lambda>c. c \<noteq> a) e = pre @ g"
    unfolding e by (rule trans [rotated])
  then show "\<exists>pre. takeWhile (\<lambda>c. c \<noteq> a) e = pre @ g" ..
next
  assume "\<exists>pre. takeWhile (\<lambda>c. c \<noteq> a) e = pre @ g"
  then obtain pre where l: "takeWhile (\<lambda>c. c \<noteq> a) e = pre @ g" ..
  have "a \<in> set e"
  proof (rule ccontr)
    assume "a \<notin> set e"
    then have "count_list e a = 0" by (simp add: count_list_0_iff)
    with one show False by simp
  qed
  then have "dropWhile (\<lambda>c. c \<noteq> a) e \<noteq> []" by (simp add: dropWhile_eq_Nil_conv)
  then obtain x r where d: "dropWhile (\<lambda>c. c \<noteq> a) e = x # r"
    by (cases "dropWhile (\<lambda>c. c \<noteq> a) e") auto
  have "\<not> (hd (dropWhile (\<lambda>c. c \<noteq> a) e) \<noteq> a)"
    using \<open>dropWhile (\<lambda>c. c \<noteq> a) e \<noteq> []\<close> by (rule hd_dropWhile)
  with d have x: "x = a" by simp
  have "e = takeWhile (\<lambda>c. c \<noteq> a) e @ dropWhile (\<lambda>c. c \<noteq> a) e" by simp
  with l d x have "e = pre @ (g @ [a]) @ r" by simp
  then show "\<exists>pre post. e = pre @ (g @ [a]) @ post" by blast
qed

lemma role_in_email:
  assumes "count_list e CHR ''@'' = 1" and "CHR ''@'' \<notin> set g"
  shows "contains (g @ ''@'') e \<longleftrightarrow> endswith (local_part e) g"
  unfolding contains_iff endswith_iff local_part_def
  by (rule around_separator [OF assms])

lemma any_prefix_in_iff:
  assumes "count_list e CHR ''@'' = 1"
  shows "any_prefix_in e \<longleftrightarrow> ends_generic e"
proof -
  have r: "role_prefixes = map (\<lambda>g. g @ ''@'') generic_names"
    by (simp add: role_prefixes_def generic_names_def)
  have at: "\<forall>g \<in> set generic_names. CHR ''@'' \<notin> set g"
    by (simp add: generic_names_def)
  have "\<forall>g \<in> set generic_names. contains (g @ ''@'') e \<longleftrightarrow> endswith (local_part e) g"
  proof
    fix g assume "g \<in> set generic_names"
    with at have "CHR ''@'' \<notin> set g" by (rule bspec)
    then show "contains (g @ ''@'') e \<longleftrightarrow> endswith (local_part e) g"
      by (rule role_in_email [OF assms])
  qed
  then show ?thesis
    unfolding any_prefix_in_def ends_generic_def r list_ex_iff by simp
qed

lemma infoguy_example:
  "unique_emails plain_lib ''Write to infoguy@example.com'' ''Write to infoguy@example.com''
     = [''infoguy@example.com'']"
  by code_simp

text \<open>
  C6, as the code has it. For every validated email, it is a business email if and only
  if it holds one of \<open>info@\<close>, \<open>contact@\<close>, \<open>sales@\<close>, \<open>support@\<close>, \<open>hello@\<close>, \<open>admin@\<close>,
  \<open>service@\<close>, \<open>office@\<close>, that is, if and only if its local part ends with one of the
  generic names, and an owner email otherwise; every email is in exactly one of the two
  lists. \<open>html_content\<close> is the page and \<open>text\<close> its rendered text.
\<close>

theorem role_partition_by_substring:
  assumes "set_listing L"
  shows "(\<forall>e \<in> set (unique_emails L html_content text).
            (e \<in> set (business_emails (unique_emails L html_content text)) \<longleftrightarrow> ends_generic e)
          \<and> (e \<in> set (owner_emails (unique_emails L html_content text)) \<longleftrightarrow> \<not> ends_generic e))
         \<and> set (business_emails (unique_emails L html_content text))
             \<union> set (owner_emails (unique_emails L html_content text))
           = set (unique_emails L html_content text)
         \<and> set (business_emails (unique_emails L html_content text))
             \<inter> set (owner_emails (unique_emails L html_content text)) = {}"
proof -
  let ?u = "unique_emails L html_content text"
  from assms have "set ?u = set (valid_emails (all_emails html_content text))"
    by (simp add: set_listing_def unique_emails_def)
  with valid_emails_wf have "\<forall>e \<in> set ?u. count_list e CHR ''@'' = 1"
    by (simp add: well_formed_email_def)
  then have "\<forall>e \<in> set ?u. any_prefix_in e \<longleftrightarrow> ends_generic e"
    by (simp add: any_prefix_in_iff)
  then show ?thesis
    by (auto simp: business_emails_def owner_emails_def)
qed

theorem role_partition_by_substring_witness:
  "set_listing plain_lib
   \<and> ends_generic ''contact@example.com''
   \<and> business_emails (unique_emails plain_lib corpus corpus) = [''contact@example.com'']"
proof -
  have u: "unique_emails plain_lib corpus corpus = [''contact@example.com'']"
    by (simp add: unique_emails_def plain_lib_def corpus_example)
  from role_partition_by_substring [OF set_listing_plain, of corpus corpus]
  have "\<forall>e \<in> set (unique_emails plain_lib corpus corpus).
          (e \<in> set (business_emails (unique_emails plain_lib corpus corpus)) \<longleftrightarrow> ends_generic e)"
    by blast
  with u have i: "''contact@example.com'' \<in> set (business_emails [''contact@example.com''])
      \<longleftrightarrow> ends_generic ''contact@example.com''"
    by simp
  have b: "business_emails [''contact@example.com''] = [''contact@example.com'']"
    by code_simp
  with i have "ends_generic ''contact@example.com''" by simp
  with u b set_listing_plain show ?thesis by simp
qed

text \<open>
  C6 as stated fails: the local part of \<open>infoguy@example.com\<close> starts with \<open>info\<close>, and the
  email is an owner email, not a business email.
\<close>

theorem role_partition_counterexample:
  "unique_emails plain_lib ''Write to infoguy@example.com'' ''Write to infoguy@example.com''
     = [''infoguy@example.com'']
   \<and> starts_generic ''infoguy@example.com''
   \<and> ''infoguy@example.com'' \<notin> set (business_emails [''infoguy@example.com''])
   \<and> ''infoguy@example.com'' \<in> set (owner_emails [''infoguy@example.com''])"
proof -
  have "starts_generic ''infoguy@example.com''" by code_simp
  moreover have "business_emails [''infoguy@example.com''] = []" by code_simp
  moreover have "owner_emails [''infoguy@example.com''] = [''infoguy@example.com'']" by code_simp
  ultimately show ?thesis using infoguy_example by simp
qed
section \<open>What \<open>\{.*\}\<close> matches\<close>

lemma ends_lit1:
  "ends (lit [z]) b (m, s) = (case s of [] \<Rightarrow> [] | c # cs \<Rightarrow> if c = z then [(c # m, cs)] else [])"
  by (simp add: lit_def split: list.splits)

lemma ends_span_pattern:
  "ends (span_pattern a z) b ([], s) =
     (case s of
        [] \<Rightarrow> []
      | c # cs \<Rightarrow>
          if c = a then concat (map (\<lambda>k. ends (lit [z]) b k) (star_ends (\<lambda>c. True) [c] cs))
          else [])"
proof -
  have "ends Eps b = (\<lambda>k. [k])" by (rule ext) simp
  then have "\<And>r. ends (Cat r Eps) b = ends r b"
    by (intro ext) simp
  then show ?thesis
    by (simp add: span_pattern_def cats_def ends_lit1 split: list.splits)
qed

lemma upto_last_Cons:
  "z \<in> set cs \<Longrightarrow> upto_last z (c # cs) = c # upto_last z cs"
  by (simp add: upto_last_def dropWhile_append1)

lemma upto_last_single:
  "z \<notin> set cs \<Longrightarrow> upto_last z (z # cs) = [z]"
  by (simp add: upto_last_def dropWhile_append)

lemma star_then_lit_none:
  "z \<notin> set s \<Longrightarrow> concat (map (\<lambda>k. ends (lit [z]) b k) (star_ends (\<lambda>c. True) m s)) = []"
  by (induction s arbitrary: m) (auto simp: ends_lit1)

lemma star_then_lit_some:
  "z \<in> set s \<Longrightarrow>
   \<exists>rest ks. concat (map (\<lambda>k. ends (lit [z]) b k) (star_ends (\<lambda>c. True) m s))
     = (rev (upto_last z s) @ m, rest) # ks"
proof (induction s arbitrary: m)
  case Nil
  then show ?case by simp
next
  case (Cons c cs)
  show ?case
  proof (cases "z \<in> set cs")
    case True
    from Cons.IH [OF True, of "c # m"] obtain rest ks where
      "concat (map (\<lambda>k. ends (lit [z]) b k) (star_ends (\<lambda>c. True) (c # m) cs))
        = (rev (upto_last z cs) @ c # m, rest) # ks" by blast
    with True show ?thesis by (simp add: upto_last_Cons)
  next
    case False
    with Cons.prems have c: "c = z" by simp
    with False show ?thesis
      by (simp add: star_then_lit_none ends_lit1 upto_last_single)
  qed
qed

lemma first_match_span_none:
  "z \<notin> set t \<Longrightarrow> first_match (span_pattern a z) b t = None"
proof (induction t arbitrary: b)
  case Nil
  then show ?case by (simp add: ends_span_pattern)
next
  case (Cons c cs)
  then show ?case
    by (simp add: ends_span_pattern star_then_lit_none)
qed

lemma first_match_span_skip:
  "a \<notin> set pre \<Longrightarrow>
   map_option (\<lambda>(b, m, rest). rev m) (first_match (span_pattern a z) b (pre @ t))
   = map_option (\<lambda>(b, m, rest). rev m) (first_match (span_pattern a z) (prev_char b (rev pre)) t)"
proof (induction pre arbitrary: b)
  case Nil
  then show ?case by (simp add: prev_char_def)
next
  case (Cons c pre)
  then have "c \<noteq> a" by auto
  then have "ends (span_pattern a z) b ([], c # pre @ t) = []"
    by (simp add: ends_span_pattern)
  moreover have "prev_char (Some c) (rev pre) = prev_char b (rev pre @ [c])"
    by (cases "rev pre") (simp_all add: prev_char_def)
  ultimately show ?case using Cons by simp
qed

lemma re_search_span:
  "re_search (span_pattern a z) text =
     (case dropWhile (\<lambda>c. c \<noteq> a) text of
        [] \<Rightarrow> None
      | c # s \<Rightarrow> if z \<in> set s then Some (c # upto_last z s) else None)"
proof -
  let ?pre = "takeWhile (\<lambda>c. c \<noteq> a) text" and ?t = "dropWhile (\<lambda>c. c \<noteq> a) text"
  let ?b = "prev_char None (rev ?pre)"
  have "a \<notin> set ?pre" by (auto dest: set_takeWhileD)
  then have "re_search (span_pattern a z) (?pre @ ?t)
      = map_option (\<lambda>(b, m, rest). rev m) (first_match (span_pattern a z) ?b ?t)"
    unfolding re_search_def by (rule first_match_span_skip)
  then have skip: "re_search (span_pattern a z) text
      = map_option (\<lambda>(b, m, rest). rev m) (first_match (span_pattern a z) ?b ?t)"
    by simp
  show ?thesis
  proof (cases ?t)
    case Nil
    show ?thesis
      unfolding skip Nil by (simp add: ends_span_pattern)
  next
    case (Cons c s)
    have "?t \<noteq> []" using Cons by simp
    then have "\<not> (hd ?t \<noteq> a)" by (rule hd_dropWhile)
    with Cons have c: "c = a" by simp
    show ?thesis
    proof (cases "z \<in> set s")
      case True
      from star_then_lit_some [OF True, of ?b "[a]"] obtain rest ks where
        "concat (map (\<lambda>k. ends (lit [z]) ?b k) (star_ends (\<lambda>c. True) [a] s))
          = (rev (upto_last z s) @ [a], rest) # ks" by blast
      with True c show ?thesis
        unfolding skip Cons by (simp add: ends_span_pattern)
    next
      case False
      then have "first_match (span_pattern a z) (Some a) s = None"
        by (rule first_match_span_none)
      with False c show ?thesis
        unfolding skip Cons by (simp add: ends_span_pattern star_then_lit_none)
    qed
  qed
qed

lemma json_pattern_span: "json_pattern = span_pattern CHR ''{'' CHR ''}''"
  by (simp add: json_pattern_def span_pattern_def)

lemma json_match_brace_span: "json_match text = brace_span text"
  unfolding json_match_def json_pattern_span re_search_span brace_span_def upto_last_def ..

lemma brace_span_around:
  assumes "CHR ''{'' \<notin> set pre" and "CHR ''}'' \<notin> set post"
  shows "brace_span (pre @ ''{'' @ body @ ''}'' @ post) = Some (''{'' @ body @ ''}'')"
proof -
  from assms(1) have "dropWhile (\<lambda>c. c \<noteq> CHR ''{'') (pre @ ''{'' @ body @ ''}'' @ post)
      = ''{'' @ body @ ''}'' @ post"
    by (simp add: dropWhile_append)
  moreover from assms(2) have "dropWhile (\<lambda>c. c \<noteq> CHR ''}'') (rev (body @ ''}'' @ post)) = CHR ''}'' # rev body"
    by (simp add: dropWhile_append)
  ultimately show ?thesis
    by (simp add: brace_span_def)
qed


lemma dropWhile_absent: "a \<notin> set t \<Longrightarrow> dropWhile (\<lambda>c. c \<noteq> a) t = []"
  by (induction t) auto

lemma dropWhile_present: "a \<in> set t \<Longrightarrow> dropWhile (\<lambda>c. c \<noteq> a) t \<noteq> []"
  by (induction t) auto

lemma brace_span_commentary:
  assumes "CHR ''{'' \<notin> set pre" and "CHR ''}'' \<notin> set post"
  shows "brace_span (pre @ t @ post) = brace_span t"
proof -
  let ?P = "\<lambda>c. c \<noteq> CHR ''{''" and ?Q = "\<lambda>c. c \<noteq> CHR ''}''"
  have pre: "dropWhile ?P (pre @ t @ post) = dropWhile ?P (t @ post)"
    by (rule dropWhile_append2) (use assms(1) in auto)
  show ?thesis
  proof (cases "CHR ''{'' \<in> set t")
    case True
    have d: "dropWhile ?P (t @ post) = dropWhile ?P t @ post"
      by (rule dropWhile_append1 [OF True]) simp
    from True have "dropWhile ?P t \<noteq> []" by (rule dropWhile_present)
    then obtain c s where cs: "dropWhile ?P t = c # s"
      by (cases "dropWhile ?P t") auto
    have "dropWhile ?Q (rev post @ rev s) = dropWhile ?Q (rev s)"
      by (rule dropWhile_append2) (use assms(2) in auto)
    then have "dropWhile ?Q (rev (s @ post)) = dropWhile ?Q (rev s)"
      by simp
    with assms(2) show ?thesis
      unfolding brace_span_def pre d cs by simp
  next
    case False
    then have t: "dropWhile ?P t = []" by (rule dropWhile_absent)
    have d: "dropWhile ?P (t @ post) = dropWhile ?P post"
      by (rule dropWhile_append2) (use False in auto)
    have "brace_span (pre @ t @ post) = None"
    proof (cases "dropWhile ?P post")
      case Nil
      show ?thesis unfolding brace_span_def pre d Nil by simp
    next
      case (Cons c s)
      have "set (dropWhile ?P post) \<subseteq> set post" by (auto dest: set_dropWhileD)
      with assms(2) have "CHR ''}'' \<notin> set (dropWhile ?P post)" by blast
      then have "CHR ''}'' \<notin> set s" unfolding Cons by simp
      then show ?thesis unfolding brace_span_def pre d Cons by simp
    qed
    moreover have "brace_span t = None" unfolding brace_span_def t by simp
    ultimately show ?thesis by simp
  qed
qed
section \<open>The adapter and the classifier on a reply\<close>

lemma classify_decoded:
  "is_small_independent_business L business_data (Inr result_text) =
     (case decode_reply L result_text of
        None \<Rightarrow> JBool False
      | Some analysis \<Rightarrow> is_qualified analysis)"
  by (simp add: is_small_independent_business_def classify_try_def decode_reply_def
      split: option.splits json.splits)

lemma classify_raised:
  "is_small_independent_business L business_data (Inl e) = JBool False"
  by (simp add: is_small_independent_business_def classify_try_def)

lemma extract_handled_decoded:
  "extract_handled L (Inr result_text) html_content text url =
     (case decode_reply L result_text of
        None \<Rightarrow> signals_only L html_content text url
      | Some d \<Rightarrow> parsed_record L html_content text url d)"
  by (simp add: extract_handled_def extract_try_def decode_reply_def signals_only_def
      parsed_record_def Let_def split: option.splits json.splits)

lemma extract_handled_raised:
  "extract_handled L (Inl e) html_content text url = signals_only L html_content text url"
  by (simp add: extract_handled_def extract_try_def signals_only_def Let_def)


lemma extract_parsed:
  "get_text L html_content = Inr text \<Longrightarrow>
   extract_business_info L response html_content url
     = Inr (extract_handled L response html_content text url)"
  by (simp add: extract_business_info_def)


lemma decode_reply_brace_span:
  "decode_reply L result_text =
     (case brace_span result_text of
        None \<Rightarrow> None
      | Some m \<Rightarrow> (case json_loads L m of Some (JObj d) \<Rightarrow> Some d | _ \<Rightarrow> None))"
  by (simp add: decode_reply_def json_match_brace_span)

lemma decode_reply_commentary:
  assumes "CHR ''{'' \<notin> set pre" and "CHR ''}'' \<notin> set post"
  shows "decode_reply L (pre @ result_text @ post) = decode_reply L result_text"
  unfolding decode_reply_brace_span brace_span_commentary [OF assms] ..

lemma truthy_py_and: "truthy (py_and a b) = (truthy a \<and> truthy b)"
  by (simp add: py_and_def)

lemma truthy_py_not: "truthy (py_not a) = (\<not> truthy a)"
  by (simp add: py_not_def)

lemma decode_verdict_reply:
  "decode_reply plain_lib verdict_reply =
     Some [(''is_small_independent'', JBool True), (''is_service_based'', JBool True),
           (''is_chain_or_franchise'', JBool False)]"
  by code_simp

lemma decode_partial_reply:
  "decode_reply plain_lib partial_reply =
     Some [(''is_small_independent'', JBool True), (''is_service_based'', JBool True)]"
  by code_simp

lemma decode_no_json_reply: "decode_reply plain_lib no_json_reply = None"
  by code_simp

lemma decode_two_objects_reply: "decode_reply plain_lib two_objects_reply = None"
  by code_simp

lemma decode_empty_phone_reply:
  "decode_reply plain_lib empty_phone_reply =
     Some [(''business_name'', JStr ''Joe Plumbing''), (''phone'', JStr [])]"
  by code_simp

text \<open>
  C1. When the inference call of the classifier raises, and when no \<open>dict\<close> is decoded from
  the reply, \<open>is_small_independent_business\<close> returns \<open>False\<close>; when a verdict is decoded,
  the result is accepted if and only if \<open>is_small_independent\<close> and \<open>is_service_based\<close> hold
  and \<open>is_chain_or_franchise\<close> does not, a missing key counting as \<open>False\<close>, \<open>False\<close> and
  \<open>True\<close>.
\<close>

theorem classify_fail_closed:
  "is_small_independent_business L business_data (Inl e) = JBool False
   \<and> (decode_reply L result_text = None \<longrightarrow>
        is_small_independent_business L business_data (Inr result_text) = JBool False)
   \<and> (decode_reply L result_text = Some analysis \<longrightarrow>
        truthy (is_small_independent_business L business_data (Inr result_text)) =
          (truthy (dict_get analysis ''is_small_independent'' (JBool False))
           \<and> truthy (dict_get analysis ''is_service_based'' (JBool False))
           \<and> \<not> truthy (dict_get analysis ''is_chain_or_franchise'' (JBool True))))"
  by (simp add: classify_raised classify_decoded is_qualified_def truthy_py_and truthy_py_not)

theorem classify_fail_closed_witness:
  "is_small_independent_business plain_lib [] (Inr no_json_reply) = JBool False
   \<and> truthy (is_small_independent_business plain_lib [] (Inr verdict_reply))"
proof -
  from classify_fail_closed [of plain_lib "[]" InferenceError no_json_reply] decode_no_json_reply
  have a: "is_small_independent_business plain_lib [] (Inr no_json_reply) = JBool False"
    by simp
  from classify_fail_closed [of plain_lib "[]" InferenceError verdict_reply] decode_verdict_reply
  have "truthy (is_small_independent_business plain_lib [] (Inr verdict_reply))"
    by (simp add: dict_get_def)
  with a show ?thesis by simp
qed

text \<open>
  C10. A decoded verdict that lacks one of the three keys is never accepted: the missing
  \<open>is_small_independent\<close> or \<open>is_service_based\<close> counts as \<open>False\<close>, the missing
  \<open>is_chain_or_franchise\<close> as \<open>True\<close>. The value returned is \<open>False\<close> itself when the two
  first fields are booleans; otherwise it can be the false value of such a field, as
  \<open>and\<close> returns its operand.
\<close>

theorem missing_verdict_key_rejects:
  assumes "decode_reply L result_text = Some analysis"
    and "map_of analysis ''is_small_independent'' = None
         \<or> map_of analysis ''is_service_based'' = None
         \<or> map_of analysis ''is_chain_or_franchise'' = None"
  shows "\<not> truthy (is_small_independent_business L business_data (Inr result_text))
         \<and> (dict_get analysis ''is_small_independent'' (JBool False) \<in> range JBool
              \<and> dict_get analysis ''is_service_based'' (JBool False) \<in> range JBool
            \<longrightarrow> is_small_independent_business L business_data (Inr result_text) = JBool False)"
  using assms
  by (auto simp: classify_decoded is_qualified_def dict_get_def py_and_def py_not_def
      split: option.splits)

theorem missing_verdict_key_rejects_witness:
  "map_of [(''is_small_independent'', JBool True), (''is_service_based'', JBool True)]
     ''is_chain_or_franchise'' = None
   \<and> is_small_independent_business plain_lib [] (Inr partial_reply) = JBool False"
proof -
  let ?a = "[(''is_small_independent'', JBool True), (''is_service_based'', JBool True)]"
  have m: "map_of ?a ''is_small_independent'' = None \<or> map_of ?a ''is_service_based'' = None
      \<or> map_of ?a ''is_chain_or_franchise'' = None"
    by simp
  have "dict_get ?a ''is_small_independent'' (JBool False) \<in> range JBool
      \<and> dict_get ?a ''is_service_based'' (JBool False) \<in> range JBool"
    by (simp add: dict_get_def)
  with missing_verdict_key_rejects [OF decode_partial_reply m, of "[]"]
  have "is_small_independent_business plain_lib [] (Inr partial_reply) = JBool False"
    by (simp only:)
  then show ?thesis by simp
qed

lemma map_of_fill:
  "map_of (fill d k c v) k' =
     (if k' = k \<and> \<not> truthy (dict_get_none d k) \<and> c then Some (opt_str v) else map_of d k')"
  by (simp add: fill_def update_conv')

lemma dict_get_none_fill:
  "k' \<noteq> k \<Longrightarrow> dict_get_none (fill d k c v) k' = dict_get_none d k'"
  by (simp add: dict_get_none_def dict_get_def map_of_fill)

lemma dict_get_none_update:
  "k' \<noteq> k \<Longrightarrow> dict_get_none (AList.update k v d) k' = dict_get_none d k'"
  by (simp add: dict_get_none_def dict_get_def update_conv')

lemma map_of_parsed_record:
  "map_of (parsed_record L html_content text url d) k =
     (if k = ''source_url'' then Some (JStr url)
      else case map_of (contact_signals L html_content text) k of
             None \<Rightarrow> map_of d k
           | Some sig \<Rightarrow>
               if \<not> truthy (dict_get_none d k)
                  \<and> (if k = ''business_email'' \<or> k = ''owner_email'' then sig \<noteq> None
                      else truthy (opt_str sig))
               then Some (opt_str sig) else map_of d k)"
  unfolding parsed_record_def contact_signals_def
  by (simp add: map_of_fill dict_get_none_fill dict_get_none_update update_conv'
      first_or_none_def split: list.splits)

lemma map_of_parsed_record_other:
  "k \<notin> set merge_keys \<Longrightarrow> map_of (parsed_record L html_content text url d) k = map_of d k"
  unfolding map_of_parsed_record by (simp add: merge_keys_def contact_signals_def)

lemma map_of_signals_only:
  "map_of (signals_only L html_content text url) ''source_url'' = Some (JStr url)"
  by (simp add: signals_only_def signal_record_def)

lemma map_of_extract_handled_url:
  "map_of (extract_handled L response html_content text url) ''source_url'' = Some (JStr url)"
proof (cases response)
  case (Inl e)
  then show ?thesis by (simp add: extract_handled_raised map_of_signals_only)
next
  case (Inr reply)
  then show ?thesis
    by (simp add: extract_handled_decoded map_of_signals_only map_of_parsed_record
        split: option.splits)
qed

text \<open>
  C2, as the code has it. In the merge, for each of \<open>business_email\<close>, \<open>owner_email\<close>,
  \<open>phone\<close> and \<open>address\<close>: a field whose decoded value is true (present, and not \<open>null\<close>,
  empty, zero or \<open>false\<close>) keeps the value of the model; a field that is absent or false is
  filled from its signal when there is one, and left as the model gave it when there is
  none. \<open>source_url\<close> is the input URL whatever the reply was. The page is one that
  \<open>BeautifulSoup\<close> parses, with the rendered text \<open>text\<close>; \<open>final\<close> is the record the
  function returns.
\<close>

theorem merge_fills_falsy_fields:
  assumes "get_text L html_content = Inr text"
  shows
  "(decode_reply L result_text = Some d \<longrightarrow>
      (\<exists>final. extract_business_info L (Inr result_text) html_content url = Inr final
         \<and> (\<forall>(k, sig) \<in> set (contact_signals L html_content text).
               (truthy (dict_get_none d k) \<longrightarrow> map_of final k = map_of d k)
             \<and> (\<not> truthy (dict_get_none d k) \<longrightarrow>
                  (\<forall>s. sig = Some s \<and> s \<noteq> [] \<longrightarrow> map_of final k = Some (JStr s))
                  \<and> (sig = None \<longrightarrow> map_of final k = map_of d k)))))
   \<and> (\<exists>final. extract_business_info L response html_content url = Inr final
         \<and> map_of final ''source_url'' = Some (JStr url))"
proof -
  have u: "\<exists>final. extract_business_info L response html_content url = Inr final
      \<and> map_of final ''source_url'' = Some (JStr url)"
    by (simp add: extract_parsed [OF assms] map_of_extract_handled_url)
  have "\<forall>(k, sig) \<in> set (contact_signals L html_content text).
         (truthy (dict_get_none d k) \<longrightarrow>
            map_of (parsed_record L html_content text url d) k = map_of d k)
       \<and> (\<not> truthy (dict_get_none d k) \<longrightarrow>
            (\<forall>s. sig = Some s \<and> s \<noteq> [] \<longrightarrow>
               map_of (parsed_record L html_content text url d) k = Some (JStr s))
            \<and> (sig = None \<longrightarrow> map_of (parsed_record L html_content text url d) k = map_of d k))"
    unfolding map_of_parsed_record
    by (simp add: contact_signals_def opt_str_def)
  with u show ?thesis
    by (simp add: extract_parsed [OF assms] extract_handled_decoded)
qed

lemma decode_named_reply:
  "decode_reply plain_lib named_reply =
     Some [(''business_name'', JStr ''Joe Plumbing''), (''phone'', JStr ''555-0000'')]"
  by code_simp

lemma joe_text: "get_text plain_lib joe_page = Inr joe_page"
  by code_simp

lemma joe_signals:
  "contact_signals plain_lib joe_page joe_page =
     [(''business_email'', Some ''info@joe.com''), (''owner_email'', None),
      (''phone'', Some ''(555) 123-4567''), (''address'', None)]"
  by code_simp

lemma joe_named_record:
  "extract_business_info plain_lib (Inr named_reply) joe_page joe_url =
     Inr [(''business_name'', JStr ''Joe Plumbing''), (''phone'', JStr ''555-0000''),
          (''source_url'', JStr ''http://joe.com''), (''business_email'', JStr ''info@joe.com'')]"
  by code_simp

theorem merge_fills_falsy_fields_witness:
  "get_text plain_lib joe_page = Inr joe_page
   \<and> extract_business_info plain_lib (Inr named_reply) joe_page joe_url =
       Inr [(''business_name'', JStr ''Joe Plumbing''), (''phone'', JStr ''555-0000''),
            (''source_url'', JStr ''http://joe.com''), (''business_email'', JStr ''info@joe.com'')]
   \<and> map_of [(''business_name'', JStr ''Joe Plumbing''), (''phone'', JStr ''555-0000''),
             (''source_url'', JStr ''http://joe.com''), (''business_email'', JStr ''info@joe.com'')]
        ''phone'' = Some (JStr ''555-0000'')
   \<and> map_of [(''business_name'', JStr ''Joe Plumbing''), (''phone'', JStr ''555-0000''),
             (''source_url'', JStr ''http://joe.com''), (''business_email'', JStr ''info@joe.com'')]
        ''business_email'' = Some (JStr ''info@joe.com'')
   \<and> map_of [(''business_name'', JStr ''Joe Plumbing''), (''phone'', JStr ''555-0000''),
             (''source_url'', JStr ''http://joe.com''), (''business_email'', JStr ''info@joe.com'')]
        ''source_url'' = Some (JStr joe_url)"
  using merge_fills_falsy_fields
    [OF joe_text, of named_reply
        "[(''business_name'', JStr ''Joe Plumbing''), (''phone'', JStr ''555-0000'')]"
        joe_url "Inr named_reply"]
  by (simp add: joe_text decode_named_reply joe_signals joe_named_record dict_get_none_def
      dict_get_def)

lemma joe_empty_phone_record:
  "extract_business_info plain_lib (Inr empty_phone_reply) joe_page joe_url =
     Inr [(''business_name'', JStr ''Joe Plumbing''), (''phone'', JStr ''(555) 123-4567''),
          (''source_url'', JStr ''http://joe.com''), (''business_email'', JStr ''info@joe.com'')]"
  by code_simp

text \<open>
  C2 as stated fails: the model record has \<open>phone\<close> present, with the empty string, and the
  final record holds the phone of the signals instead.
\<close>

theorem merge_keeps_present_counterexample:
  "decode_reply plain_lib empty_phone_reply
     = Some [(''business_name'', JStr ''Joe Plumbing''), (''phone'', JStr [])]
   \<and> main_phone joe_page = Some ''(555) 123-4567''
   \<and> extract_business_info plain_lib (Inr empty_phone_reply) joe_page joe_url =
       Inr [(''business_name'', JStr ''Joe Plumbing''), (''phone'', JStr ''(555) 123-4567''),
            (''source_url'', JStr ''http://joe.com''), (''business_email'', JStr ''info@joe.com'')]
   \<and> map_of [(''business_name'', JStr ''Joe Plumbing''), (''phone'', JStr ''(555) 123-4567''),
             (''source_url'', JStr ''http://joe.com''), (''business_email'', JStr ''info@joe.com'')]
        ''phone''
     = Some (JStr ''(555) 123-4567'')"
proof -
  have "main_phone joe_page = Some ''(555) 123-4567''"
    using joe_signals by (simp add: contact_signals_def)
  with decode_empty_phone_reply joe_empty_phone_record show ?thesis by simp
qed






text \<open>
  C7, as the code has it. What is decoded is the text from the first \<open>{\<close> of the reply
  through its last \<open>}\<close>: text in front without \<open>{\<close> and text behind without \<open>}\<close> change
  neither this text nor what the two functions return. The classifier computes its verdict
  from the \<open>dict\<close> decoded from this text, and the adapter (on a page that
  \<open>BeautifulSoup\<close> parses) returns the merge of this \<open>dict\<close>, which keeps every field of
  the \<open>dict\<close> other than \<open>source_url\<close> and the four contact fields as it is. When there is
  no such text, or no \<open>dict\<close> is decoded from it, the adapter returns the record of the
  signals and the classifier returns \<open>False\<close>.
\<close>

theorem reply_decoded_from_greedy_match:
  "json_match result_text = brace_span result_text
   \<and> (CHR ''{'' \<notin> set pre \<and> CHR ''}'' \<notin> set post \<longrightarrow>
        json_match (pre @ ''{'' @ body @ ''}'' @ post) = Some (''{'' @ body @ ''}'')
        \<and> json_match (pre @ result_text @ post) = json_match result_text
        \<and> is_small_independent_business L business_data (Inr (pre @ result_text @ post))
            = is_small_independent_business L business_data (Inr result_text)
        \<and> extract_business_info L (Inr (pre @ result_text @ post)) html_content url
            = extract_business_info L (Inr result_text) html_content url)
   \<and> is_small_independent_business L business_data (Inr result_text) =
       (case brace_span result_text of
          None \<Rightarrow> JBool False
        | Some m \<Rightarrow>
            (case json_loads L m of
               Some (JObj analysis) \<Rightarrow> is_qualified analysis
             | _ \<Rightarrow> JBool False))
   \<and> (get_text L html_content = Inr text \<longrightarrow>
        extract_business_info L (Inr result_text) html_content url =
          Inr (case brace_span result_text of
                 None \<Rightarrow> signals_only L html_content text url
               | Some m \<Rightarrow>
                   (case json_loads L m of
                      Some (JObj d) \<Rightarrow> parsed_record L html_content text url d
                    | _ \<Rightarrow> signals_only L html_content text url)))
   \<and> (k \<notin> set merge_keys \<longrightarrow>
        map_of (parsed_record L html_content text url d) k = map_of d k)"
proof -
  have a: "json_match result_text = brace_span result_text"
    by (rule json_match_brace_span)
  have b: "json_match (pre @ ''{'' @ body @ ''}'' @ post) = Some (''{'' @ body @ ''}'')
        \<and> json_match (pre @ result_text @ post) = json_match result_text
        \<and> is_small_independent_business L business_data (Inr (pre @ result_text @ post))
            = is_small_independent_business L business_data (Inr result_text)
        \<and> extract_business_info L (Inr (pre @ result_text @ post)) html_content url
            = extract_business_info L (Inr result_text) html_content url"
    if p: "CHR ''{'' \<notin> set pre" and q: "CHR ''}'' \<notin> set post"
  proof -
    have "extract_business_info L (Inr (pre @ result_text @ post)) html_content url
            = extract_business_info L (Inr result_text) html_content url"
      by (cases "get_text L html_content")
         (simp_all add: extract_business_info_def extract_handled_decoded
            decode_reply_commentary [OF p q])
    moreover have "json_match (pre @ ''{'' @ body @ ''}'' @ post) = Some (''{'' @ body @ ''}'')"
      unfolding json_match_brace_span by (rule brace_span_around [OF p q])
    moreover have "json_match (pre @ result_text @ post) = json_match result_text"
      unfolding json_match_brace_span by (rule brace_span_commentary [OF p q])
    moreover have "is_small_independent_business L business_data (Inr (pre @ result_text @ post))
            = is_small_independent_business L business_data (Inr result_text)"
      unfolding classify_decoded decode_reply_commentary [OF p q] ..
    ultimately show ?thesis by (intro conjI)
  qed
  have c: "is_small_independent_business L business_data (Inr result_text) =
       (case brace_span result_text of
          None \<Rightarrow> JBool False
        | Some m \<Rightarrow>
            (case json_loads L m of
               Some (JObj analysis) \<Rightarrow> is_qualified analysis
             | _ \<Rightarrow> JBool False))"
    by (simp add: classify_decoded decode_reply_brace_span split: option.splits json.splits)
  have d: "extract_business_info L (Inr result_text) html_content url =
          Inr (case brace_span result_text of
                 None \<Rightarrow> signals_only L html_content text url
               | Some m \<Rightarrow>
                   (case json_loads L m of
                      Some (JObj d) \<Rightarrow> parsed_record L html_content text url d
                    | _ \<Rightarrow> signals_only L html_content text url))"
    if g: "get_text L html_content = Inr text"
    by (simp add: extract_parsed [OF g] extract_handled_decoded decode_reply_brace_span
        split: option.splits json.splits)
  from a b c d map_of_parsed_record_other [of k L html_content "text" url d]
  show ?thesis by blast
qed

lemma named_reply_span:
  \<open>brace_span named_reply = Some ''{"business_name": "Joe Plumbing", "phone": "555-0000"}''\<close>
  by code_simp

lemma two_objects_span:
  \<open>brace_span two_objects_reply = Some ''{"a": 1} and {"b": 2}''
   \<and> json_loads plain_lib ''{"a": 1} and {"b": 2}'' = None\<close>
  by code_simp

lemma named_reply_loads:
  \<open>json_loads plain_lib ''{"business_name": "Joe Plumbing", "phone": "555-0000"}''
     = Some (JObj [(''business_name'', JStr ''Joe Plumbing''), (''phone'', JStr ''555-0000'')])\<close>
  by code_simp

lemma joe_parsed_record:
  "parsed_record plain_lib joe_page joe_page joe_url
     [(''business_name'', JStr ''Joe Plumbing''), (''phone'', JStr ''555-0000'')]
   = [(''business_name'', JStr ''Joe Plumbing''), (''phone'', JStr ''555-0000''),
      (''source_url'', JStr ''http://joe.com''), (''business_email'', JStr ''info@joe.com'')]"
  by code_simp

lemma joe_signals_only:
  "signals_only plain_lib joe_page joe_page joe_url =
     [(''source_url'', JStr ''http://joe.com''), (''business_email'', JStr ''info@joe.com''),
      (''owner_email'', JNull), (''phone'', JStr ''(555) 123-4567''), (''address'', JNull)]"
  by code_simp

theorem reply_decoded_from_greedy_match_witness:
  \<open>json_match named_reply = Some ''{"business_name": "Joe Plumbing", "phone": "555-0000"}''
   \<and> extract_business_info plain_lib (Inr named_reply) joe_page joe_url =
       Inr [(''business_name'', JStr ''Joe Plumbing''), (''phone'', JStr ''555-0000''),
            (''source_url'', JStr ''http://joe.com''), (''business_email'', JStr ''info@joe.com'')]
   \<and> extract_business_info plain_lib (Inr two_objects_reply) joe_page joe_url =
       Inr [(''source_url'', JStr ''http://joe.com''), (''business_email'', JStr ''info@joe.com''),
            (''owner_email'', JNull), (''phone'', JStr ''(555) 123-4567''), (''address'', JNull)]
   \<and> is_small_independent_business plain_lib [] (Inr two_objects_reply) = JBool False\<close>
proof -
  note n = reply_decoded_from_greedy_match
    [of named_reply "[]" "[]" "[]" plain_lib "[]" joe_page joe_url joe_page "[]" "[]"]
  note t = reply_decoded_from_greedy_match
    [of two_objects_reply "[]" "[]" "[]" plain_lib "[]" joe_page joe_url joe_page "[]" "[]"]
  from n have \<open>json_match named_reply
      = Some ''{"business_name": "Joe Plumbing", "phone": "555-0000"}''\<close>
    by (simp only: named_reply_span)
  moreover from n joe_text
  have "extract_business_info plain_lib (Inr named_reply) joe_page joe_url =
       Inr [(''business_name'', JStr ''Joe Plumbing''), (''phone'', JStr ''555-0000''),
            (''source_url'', JStr ''http://joe.com''), (''business_email'', JStr ''info@joe.com'')]"
    by (simp add: named_reply_span named_reply_loads joe_parsed_record)
  moreover from t joe_text
  have "extract_business_info plain_lib (Inr two_objects_reply) joe_page joe_url =
       Inr [(''source_url'', JStr ''http://joe.com''), (''business_email'', JStr ''info@joe.com''),
            (''owner_email'', JNull), (''phone'', JStr ''(555) 123-4567''), (''address'', JNull)]"
    by (simp add: two_objects_span joe_signals_only)
  moreover from t
  have "is_small_independent_business plain_lib [] (Inr two_objects_reply) = JBool False"
    by (simp add: two_objects_span)
  ultimately show ?thesis by (intro conjI)
qed

lemma first_balanced_two_objects:
  \<open>first_balanced two_objects_reply = Some ''{"a": 1}''\<close>
  by code_simp

lemma loads_first_object:
  \<open>json_loads plain_lib ''{"a": 1}'' = Some (JObj [(''a'', JInt 1)])\<close>
  by code_simp

text \<open>
  C7 as stated fails: in a reply with two objects, the first balanced object decodes, and
  the program decodes nothing, as it hands the text from the first \<open>{\<close> to the last \<open>}\<close>
  to \<open>json.loads\<close>.
\<close>

theorem first_balanced_object_counterexample:
  \<open>first_balanced two_objects_reply = Some ''{"a": 1}''
   \<and> json_loads plain_lib ''{"a": 1}'' = Some (JObj [(''a'', JInt 1)])
   \<and> decode_reply plain_lib two_objects_reply = None\<close>
  using first_balanced_two_objects loads_first_object decode_two_objects_reply by simp
section \<open>The run over the URLs\<close>

lemma scrape_loop_eq:
  "scrape_loop L W idx urls (q, s) =
     ((case first_error L W (enumerate idx urls) of
         None \<Rightarrow> Inr (q @ List.map_filter (contributed L W) (enumerate idx urls))
       | Some e \<Rightarrow> Inl e),
      s @ concat (map (url_steps L W) (reached L W (enumerate idx urls))))"
proof (induction urls arbitrary: idx q s)
  case Nil
  then show ?case by (simp add: map_filter_simps)
next
  case (Cons url urls)
  show ?case
  proof (cases "requests_get W idx url")
    case (Inl e)
    then show ?thesis
      by (simp add: Cons.IH scrape_business_page_def map_filter_simps contributed_def
          classifier_accepted_def url_steps_def reaches_classifier_def page_error_def
          split: option.splits)
  next
    case (Inr html)
    show ?thesis
    proof (cases "html = []")
      case True
      with Inr show ?thesis
        by (simp add: Cons.IH scrape_business_page_def map_filter_simps contributed_def
            classifier_accepted_def url_steps_def reaches_classifier_def page_error_def
          split: option.splits)
    next
      case False
      show ?thesis
      proof (cases "extract_business_info L (extract_chat W idx html url) html url")
        case (Inl e)
        with Inr False show ?thesis
          by (simp add: scrape_business_page_def url_steps_def reaches_classifier_def
              page_error_def page_result_def split: option.splits)
      next
        case r: (Inr business_data)
        with Inr False show ?thesis
          by (simp add: Cons.IH scrape_business_page_def map_filter_simps contributed_def
              classifier_accepted_def url_record_def url_steps_def reaches_classifier_def
              page_error_def page_result_def has_name_def accepted_def
              split: option.splits)
      qed
    qed
  qed
qed


lemma scrape_steps_eq:
  "scrape_steps L W urls = concat (map (url_steps L W) (reached L W (enumerate 1 urls)))"
  by (simp add: scrape_steps_def scrape_run_def scrape_loop_eq)

lemma reached_all: "first_error L W ps = None \<Longrightarrow> reached L W ps = ps"
  by (induction ps) (auto split: option.splits)




lemma three_urls_run:
  "scrape_run plain_lib three_world three_urls =
     (Inr [[(''business_name'', JStr ''Joe Plumbing''), (''phone'', JStr ''555-0000''),
            (''source_url'', JStr ''http://joe.com''), (''business_email'', JStr ''info@joe.com'')]],
      [Fetch ''http://a.com'',
       Fetch ''http://b.com'', Extract ''http://b.com'',
       Fetch ''http://joe.com'', Extract ''http://joe.com'', Classify ''http://joe.com'', Sleep 3])"
  by code_simp



lemma count_sleeps:
  "length (filter (\<lambda>s. s = Sleep 3) (concat (map (url_steps L W) ps)))
     = length (filter (reaches_classifier L W) ps)"
  by (induction ps) (auto simp: url_steps_def split: sum.splits)






text \<open>
  C8, as the code has it. The delay is executed after the classification of a URL and
  nowhere else: a URL that reaches the classifier ends with the delay, whatever the
  verdict; a URL that is skipped (its fetch failed or gave an empty page, or its record
  has no name) goes on to the next URL without delay. The number of delays of a run is the
  number of URLs that reach the classifier. The URLs of a run are those it gets to: all
  of them when it comes to its end, and those up to the page on which
  \<open>extract_business_info\<close> raises otherwise.
\<close>

theorem delay_follows_classifier:
  "scrape_steps L W urls = concat (map (url_steps L W) (reached L W (enumerate 1 urls)))
   \<and> (first_error L W (enumerate 1 urls) = None \<longrightarrow>
        reached L W (enumerate 1 urls) = enumerate 1 urls)
   \<and> (\<forall>p \<in> set (reached L W (enumerate 1 urls)).
         (Sleep 3 \<in> set (url_steps L W p)) = reaches_classifier L W p
         \<and> (reaches_classifier L W p \<longrightarrow>
              url_steps L W p = [Fetch (snd p), Extract (snd p), Classify (snd p), Sleep 3]))
   \<and> length (filter (\<lambda>s. s = Sleep 3) (scrape_steps L W urls))
       = length (filter (reaches_classifier L W) (reached L W (enumerate 1 urls)))"
proof -
  have "\<forall>p \<in> set (reached L W (enumerate 1 urls)).
         (Sleep 3 \<in> set (url_steps L W p)) = reaches_classifier L W p
         \<and> (reaches_classifier L W p \<longrightarrow>
              url_steps L W p = [Fetch (snd p), Extract (snd p), Classify (snd p), Sleep 3])"
    by (auto simp: url_steps_def split: sum.splits)
  then show ?thesis
    by (simp add: scrape_steps_eq count_sleeps reached_all)
qed

theorem delay_follows_classifier_witness:
  "scrape_steps plain_lib three_world three_urls =
     [Fetch ''http://a.com'',
      Fetch ''http://b.com'', Extract ''http://b.com'',
      Fetch ''http://joe.com'', Extract ''http://joe.com'', Classify ''http://joe.com'', Sleep 3]
   \<and> length (filter (reaches_classifier plain_lib three_world)
               (reached plain_lib three_world (enumerate 1 three_urls))) = 1"
proof -
  have s: "scrape_steps plain_lib three_world three_urls =
     [Fetch ''http://a.com'',
      Fetch ''http://b.com'', Extract ''http://b.com'',
      Fetch ''http://joe.com'', Extract ''http://joe.com'', Classify ''http://joe.com'', Sleep 3]"
    unfolding scrape_steps_def three_urls_run by simp
  from delay_follows_classifier [of plain_lib three_world three_urls]
  have "length (filter (\<lambda>s. s = Sleep 3) (scrape_steps plain_lib three_world three_urls))
       = length (filter (reaches_classifier plain_lib three_world)
                  (reached plain_lib three_world (enumerate 1 three_urls)))"
    by (rule conjunct2 [THEN conjunct2, THEN conjunct2])
  then have "length (filter (reaches_classifier plain_lib three_world)
               (reached plain_lib three_world (enumerate 1 three_urls))) = 1"
    unfolding s by simp
  with s show ?thesis by (intro conjI)
qed

lemma failing_run:
  "scrape_run plain_lib failing_world [''http://a.com'', ''http://b.com'']
     = (Inr [], [Fetch ''http://a.com'', Fetch ''http://b.com''])"
  by code_simp

text \<open>
  C8 as stated fails: when the fetch of a URL fails, the run goes on to the next URL
  without delay.
\<close>

theorem delay_after_every_url_counterexample:
  "scrape_steps plain_lib failing_world [''http://a.com'', ''http://b.com'']
     = [Fetch ''http://a.com'', Fetch ''http://b.com'']"
  using failing_run by (simp add: scrape_steps_def)

end
